theory Spec2Isabelle
  imports Complex_Main
begin

section \<open>Values exchanged with the HTTP layer\<close>

text \<open>
  Request bodies and response bodies are JSON values. A parsed JSON object is a Python
  dict; it is kept as an association list read with \<open>map_of\<close>.
\<close>

datatype json =
    JNull
  | JBool bool
  | JInt int
  | JReal rat
  | JStr string
  | JList "json list"
  | JDict "(string \<times> json) list"

text \<open>Python truthiness, as used by \<^verbatim>\<open>if not long_url\<close>.\<close>

fun truthy :: "json \<Rightarrow> bool" where
  "truthy JNull = False"
| "truthy (JBool b) = b"
| "truthy (JInt n) = (n \<noteq> 0)"
| "truthy (JReal r) = (r \<noteq> 0)"
| "truthy (JStr s) = (s \<noteq> [])"
| "truthy (JList xs) = (xs \<noteq> [])"
| "truthy (JDict kvs) = (kvs \<noteq> [])"

text \<open>\<^verbatim>\<open>data.get(key)\<close>: the value, or \<^verbatim>\<open>None\<close> (JSON null).\<close>

definition dict_get :: "(string \<times> json) list \<Rightarrow> string \<Rightarrow> json" where
  "dict_get data k = (case map_of data k of None \<Rightarrow> JNull | Some v \<Rightarrow> v)"

datatype payload = Text string | Json json

record response =
  status :: nat
  payload :: payload

text \<open>\<^verbatim>\<open>web.Response(text=t, status=s)\<close> and \<^verbatim>\<open>web.json_response(v, status=s)\<close>.\<close>

definition web_Response :: "string \<Rightarrow> nat \<Rightarrow> response" where
  "web_Response t s = \<lparr>status = s, payload = Text t\<rparr>"

definition web_json_response :: "json \<Rightarrow> nat \<Rightarrow> response" where
  "web_json_response v s = \<lparr>status = s, payload = Json v\<rparr>"

text \<open>
  The exceptions that occur. \<open>HTTPFound\<close> is aiohttp's redirect, which is raised, not
  returned.
\<close>

datatype exn =
    JSONDecodeError
  | UnicodeDecodeError
  | ValidationError "(string list \<times> string) list"
  | TypeError
  | DuplicateKeyError
  | ConnectionFailure string
  | HTTPFound json

text \<open>
  Of a request the handlers use two things. \<^verbatim>\<open>await request.json()\<close> either raises
  (\<open>JSONDecodeError\<close> for a text that is not JSON, \<open>UnicodeDecodeError\<close> for bytes
  that are no text in the request's charset) or returns the parsed value; that outcome is
  \<open>json_body\<close>. \<^verbatim>\<open>request.match_info['short_url_path']\<close> is the path segment.
\<close>

record request =
  json_body :: "exn + json"
  match_short_url_path :: string

section \<open>The collection and the world around a handler\<close>

text \<open>
  A document of the collection. Under \<open>short_url_path\<close> it holds a string, or the
  empty embedded document: that is what pymongo makes of an aiohttp response object,
  which is a mapping without items, when the handler passes one as the path.
\<close>

datatype stored_path = Path string | Embedded

text \<open>Python truthiness of such a value: the empty string and the empty document are false.\<close>

fun truthy_path :: "stored_path \<Rightarrow> bool" where
  "truthy_path (Path s) = (s \<noteq> [])"
| "truthy_path Embedded = False"

record url_mapping =
  short_url_path :: stored_path
  long_url :: json
  visits :: int

text \<open>
  Every call to the collection is one round trip to the database server. The
  \<open>script\<close> of the world says what happens at each round trip, in order: the call goes
  through, the call raises a connection failure, or another client of the same
  collection gets its insert in first and then the call goes through. An exhausted
  script means the call goes through.
\<close>

datatype event = Proceed | Fault string | Interleave url_mapping

text \<open>The four functions decorated with \<^verbatim>\<open>@backoff()\<close>; each decoration has its own
  \<^verbatim>\<open>current_sleep_time\<close> cell.\<close>

datatype wrapped = GenerateShortUrl | GetLongUrl | GetShortUrlVisits | GenerateUniquePath

text \<open>
  The world: the collection \<^verbatim>\<open>_urls_col\<close> in insertion order, the script of the
  round trips to come, the random numbers to come, the arguments of the calls of
  \<^verbatim>\<open>asyncio.sleep\<close> and of \<^verbatim>\<open>logging.error\<close> so far, and the cells.
\<close>

record world =
  urls_col :: "url_mapping list"
  script :: "event list"
  rng :: "nat \<Rightarrow> nat"
  sleeps :: "rat list"
  errlog :: "exn list"
  current_sleep_time :: "wrapped \<Rightarrow> rat"

type_synonym 'a result = "(exn + 'a) \<times> world"

text \<open>The two unique indexes of \<^verbatim>\<open>_create_indexes\<close>: an insert that repeats a
  \<open>short_url_path\<close> or a \<open>long_url\<close> is rejected.\<close>

definition store_insert :: "url_mapping \<Rightarrow> url_mapping list \<Rightarrow> url_mapping list option" where
  "store_insert d col =
     (if list_ex (\<lambda>x. short_url_path x = short_url_path d \<or> long_url x = long_url d) col
      then None else Some (col @ [d]))"

definition round_trip :: "world \<Rightarrow> unit result" where
  "round_trip w =
     (case script w of
        [] \<Rightarrow> (Inr (), w)
      | Proceed # es \<Rightarrow> (Inr (), w\<lparr>script := es\<rparr>)
      | Fault m # es \<Rightarrow> (Inl (ConnectionFailure m), w\<lparr>script := es\<rparr>)
      | Interleave d # es \<Rightarrow>
          (Inr (), w\<lparr>script := es,
                     urls_col := (case store_insert d (urls_col w) of
                                    None \<Rightarrow> urls_col w | Some c \<Rightarrow> c)\<rparr>))"

text \<open>\<^verbatim>\<open>update_one\<close> changes the first matching document only.\<close>

fun inc_first :: "(url_mapping \<Rightarrow> bool) \<Rightarrow> url_mapping list \<Rightarrow> url_mapping list" where
  "inc_first P [] = []"
| "inc_first P (d # ds) =
     (if P d then d\<lparr>visits := visits d + 1\<rparr> # ds else d # inc_first P ds)"

section \<open>mongo\_service.py\<close>

text \<open>
  \<^verbatim>\<open>_find_one_by_key_value(find_key, value, selected_key)\<close>: the filter
  \<^verbatim>\<open>{find_key: value}\<close> is the predicate \<open>matches\<close>, the projection on
  \<^verbatim>\<open>selected_key\<close> is the function \<open>selected\<close>; \<open>None\<close> when no document matches.
\<close>

definition find_one_by_key_value ::
  "(url_mapping \<Rightarrow> bool) \<Rightarrow> (url_mapping \<Rightarrow> 'a) \<Rightarrow> world \<Rightarrow> 'a option result" where
  "find_one_by_key_value matches selected w =
     (case round_trip w of
        (Inl e, w') \<Rightarrow> (Inl e, w')
      | (Inr _, w') \<Rightarrow> (Inr (map_option selected (find matches (urls_col w'))), w'))"

text \<open>
  \<^verbatim>\<open>insert_url_mapping(short_url_path, long_url)\<close>. The path argument is what
  \<^verbatim>\<open>_generate_unique_short_url_path\<close> returned: a string, or the response of that
  function's decorator. \<open>bson_path\<close> is the value that ends up in the document.
\<close>

definition bson_path :: "response + string \<Rightarrow> stored_path" where
  "bson_path x = (case x of Inl r \<Rightarrow> Embedded | Inr s \<Rightarrow> Path s)"

definition insert_url_mapping :: "response + string \<Rightarrow> json \<Rightarrow> world \<Rightarrow> unit result" where
  "insert_url_mapping x u w =
     (case round_trip w of
        (Inl e, w') \<Rightarrow> (Inl e, w')
      | (Inr _, w') \<Rightarrow>
          (case store_insert \<lparr>short_url_path = bson_path x, long_url = u, visits = 0\<rparr>
                  (urls_col w') of
             None \<Rightarrow> (Inl DuplicateKeyError, w')
           | Some c \<Rightarrow> (Inr (), w'\<lparr>urls_col := c\<rparr>)))"

definition is_short_url_path_exist :: "string \<Rightarrow> world \<Rightarrow> bool result" where
  "is_short_url_path_exist path w =
     (case find_one_by_key_value (\<lambda>d. short_url_path d = Path path) short_url_path w of
        (Inl e, w') \<Rightarrow> (Inl e, w')
      | (Inr r, w') \<Rightarrow> (Inr (case r of None \<Rightarrow> False | Some v \<Rightarrow> truthy_path v), w'))"

definition find_short_url_path_by_long_url :: "json \<Rightarrow> world \<Rightarrow> stored_path option result" where
  "find_short_url_path_by_long_url u w =
     find_one_by_key_value (\<lambda>d. long_url d = u) short_url_path w"

definition find_long_url_by_short_url_path :: "string \<Rightarrow> world \<Rightarrow> json option result" where
  "find_long_url_by_short_url_path p w =
     find_one_by_key_value (\<lambda>d. short_url_path d = Path p) long_url w"

definition increment_short_url_path_counter :: "string \<Rightarrow> world \<Rightarrow> unit result" where
  "increment_short_url_path_counter p w =
     (case round_trip w of
        (Inl e, w') \<Rightarrow> (Inl e, w')
      | (Inr _, w') \<Rightarrow>
          (Inr (), w'\<lparr>urls_col := inc_first (\<lambda>d. short_url_path d = Path p) (urls_col w')\<rparr>))"

definition find_short_url_path_visits :: "string \<Rightarrow> world \<Rightarrow> int option result" where
  "find_short_url_path_visits p w =
     find_one_by_key_value (\<lambda>d. short_url_path d = Path p) visits w"

section \<open>utils.py: the backoff decorator\<close>

text \<open>\<^verbatim>\<open>sep.join(parts)\<close>.\<close>

fun join :: "string \<Rightarrow> string list \<Rightarrow> string" where
  "join sep [] = []"
| "join sep [x] = x"
| "join sep (x # y # ys) = x @ sep @ join sep (y # ys)"

definition field_errors :: "(string list \<times> string) list \<Rightarrow> json" where
  "field_errors es =
     JList (map (\<lambda>(loc, msg).
        JDict [(''field'', JStr (join ''.'' loc)), (''message'', JStr msg)]) es)"

definition internal_error :: response where
  "internal_error = web_Response ''An internal server error occurred.'' 500"

text \<open>The last \<^verbatim>\<open>except\<close> clause and the two statements after the \<^verbatim>\<open>try\<close>: the
  exception is logged, the decorator sleeps for the time in its cell, and the cell is
  multiplied by the factor.\<close>

definition penalise :: "wrapped \<Rightarrow> rat \<Rightarrow> exn \<Rightarrow> world \<Rightarrow> world" where
  "penalise k factor e w =
     w\<lparr>errlog := errlog w @ [e],
       sleeps := sleeps w @ [current_sleep_time w k],
       current_sleep_time := (current_sleep_time w)(k := current_sleep_time w k * factor)\<rparr>"

text \<open>
  \<open>backoff k factor border_sleep_time func\<close> is the function \<^verbatim>\<open>inner\<close> of the
  decoration \<open>k\<close>. The variable \<^verbatim>\<open>current_sleep_time\<close> is \<^verbatim>\<open>nonlocal\<close>: it lives
  in the world, one cell for each decoration, set to \<^verbatim>\<open>start_sleep_time\<close> when the
  module is loaded and never set again. One attempt leads to the wrapped function's
  value, to a 400 reply made up at once (malformed JSON, validation errors), or to
  another turn of the loop. The wrapped function may itself never return; then neither
  does the decorated one, and the result is \<open>None\<close>. Sleep times are rationals: the
  doubling of a float is exact, so the comparisons with the border come out the same.
\<close>

partial_function (option) backoff ::
  "wrapped \<Rightarrow> rat \<Rightarrow> rat \<Rightarrow> (world \<Rightarrow> 'a result option) \<Rightarrow> world
     \<Rightarrow> ((response + 'a) \<times> world) option" where
  "backoff k factor border_sleep_time func w =
     (if current_sleep_time w k < border_sleep_time then
        (case func w of
           None \<Rightarrow> None
         | Some (Inr v, w1) \<Rightarrow> Some (Inr v, w1)
         | Some (Inl JSONDecodeError, w1) \<Rightarrow>
             Some (Inl (web_Response ''Invalid JSON data in the request body.'' 400), w1)
         | Some (Inl (ValidationError es), w1) \<Rightarrow>
             Some (Inl (web_json_response (JDict [(''errors'', field_errors es)]) 400), w1)
         | Some (Inl e, w1) \<Rightarrow>
             backoff k factor border_sleep_time func (penalise k factor e w1))
      else Some (Inl internal_error, w))"

declare backoff.simps [code]

text \<open>An endpoint returns a response either way: the handler's or the decorator's.\<close>

definition reply :: "((response + response) \<times> world) option \<Rightarrow> (response \<times> world) option" where
  "reply r = map_option (\<lambda>(x, w). (case x of Inl a \<Rightarrow> a | Inr b \<Rightarrow> b, w)) r"

section \<open>models.py and urls\_shortener.py\<close>

text \<open>
  The fields of \<^verbatim>\<open>URLShortenerApp\<close>, and two things of libraries outside the
  repository, which are parameters here. \<open>AnyUrl\<close> is pydantic's URL validator on
  strings: \<open>None\<close> for a string it accepts, and for one it rejects the message of its
  error. \<open>Response_repr\<close> is the text that an f-string makes of an aiohttp response
  object.
\<close>

record app =
  link_length :: nat
  domain :: string
  protocol :: string
  AnyUrl :: "string \<Rightarrow> string option"
  Response_repr :: "response \<Rightarrow> string"

text \<open>
  \<^verbatim>\<open>GenerateShortURLInput(**data)\<close> for a dict \<open>data\<close>: the list of pydantic's errors,
  empty when the model is constructed. The one field \<open>long_url\<close> is required and must
  be a string that \<open>AnyUrl\<close> accepts.
\<close>

definition GenerateShortURLInput :: "app \<Rightarrow> (string \<times> json) list \<Rightarrow> (string list \<times> string) list" where
  "GenerateShortURLInput a data =
     (case map_of data ''long_url'' of
        None \<Rightarrow> [([''long_url''], ''Field required'')]
      | Some (JStr s) \<Rightarrow>
          (case AnyUrl a s of None \<Rightarrow> [] | Some msg \<Rightarrow> [([''long_url''], msg)])
      | Some _ \<Rightarrow> [([''long_url''], ''URL input should be a string or URL'')])"

definition allowed_characters :: string where
  "allowed_characters = ''abcdefghijklmnopqrstuvwxyzABCDEFGHIJKLMNOPQRSTUVWXYZ0123456789''"

text \<open>\<^verbatim>\<open>random.choice(seq)\<close> on a non-empty sequence: the random source is the
  sequence of numbers still to come; the next one picks the position.\<close>

definition random_choice :: "'a list \<Rightarrow> world \<Rightarrow> 'a \<times> world" where
  "random_choice seq w = (seq ! (rng w 0 mod length seq), w\<lparr>rng := (\<lambda>i. rng w (Suc i))\<rparr>)"

fun random_chars :: "nat \<Rightarrow> world \<Rightarrow> string \<times> world" where
  "random_chars 0 w = ([], w)"
| "random_chars (Suc n) w =
     (case random_choice allowed_characters w of
        (c, w1) \<Rightarrow> (case random_chars n w1 of (cs, w2) \<Rightarrow> (c # cs, w2)))"

definition generate_short_url_path :: "app \<Rightarrow> world \<Rightarrow> string \<times> world" where
  "generate_short_url_path a w = random_chars (link_length a) w"

text \<open>\<^verbatim>\<open>f'{self._protocol}://{self._domain}/{path}'\<close>, for the text of \<open>path\<close>.\<close>

definition generate_full_url :: "app \<Rightarrow> string \<Rightarrow> string" where
  "generate_full_url a path = protocol a @ ''://'' @ domain a @ ''/'' @ path"

definition path_text :: "app \<Rightarrow> response + string \<Rightarrow> string" where
  "path_text a x = (case x of Inl r \<Rightarrow> Response_repr a r | Inr s \<Rightarrow> s)"

text \<open>The undecorated body of \<^verbatim>\<open>_generate_unique_short_url_path\<close>: \<^verbatim>\<open>while True\<close>.\<close>

partial_function (option) unique_short_url_path_loop :: "app \<Rightarrow> world \<Rightarrow> string result option" where
  "unique_short_url_path_loop a w =
     (case generate_short_url_path a w of
        (path, w1) \<Rightarrow>
          (case is_short_url_path_exist path w1 of
             (Inl e, w2) \<Rightarrow> Some (Inl e, w2)
           | (Inr exists, w2) \<Rightarrow>
               if \<not> exists then Some (Inr path, w2) else unique_short_url_path_loop a w2))"

declare unique_short_url_path_loop.simps [code]

definition generate_unique_short_url_path :: "app \<Rightarrow> world \<Rightarrow> ((response + string) \<times> world) option" where
  "generate_unique_short_url_path a w =
     backoff GenerateUniquePath 2 10 (unique_short_url_path_loop a) w"

text \<open>
  The undecorated body of \<^verbatim>\<open>generate_short_url\<close>. \<^verbatim>\<open>**data\<close> raises \<open>TypeError\<close>
  when the parsed body is not a dict. The test \<^verbatim>\<open>if short_url_path := ...\<close> holds
  for a non-empty string only: not for \<^verbatim>\<open>None\<close>, the empty string or the empty
  document. The decorated path generator may hand back the response of its decorator
  instead of a string; the handler takes it for the path, stores it and puts its text in
  the short URL.
\<close>

definition not_specified :: response where
  "not_specified = web_Response ''long_url parameter was not specified'' 400"

definition generate_short_url_body :: "app \<Rightarrow> request \<Rightarrow> world \<Rightarrow> response result option" where
  "generate_short_url_body a req w =
     (case json_body req of
        Inl e \<Rightarrow> Some (Inl e, w)
      | Inr (JDict data) \<Rightarrow>
          (case GenerateShortURLInput a data of
             e # es \<Rightarrow> Some (Inl (ValidationError (e # es)), w)
           | [] \<Rightarrow>
              (let lurl = dict_get data ''long_url'' in
               if \<not> truthy lurl then Some (Inr not_specified, w)
               else
                 (case find_short_url_path_by_long_url lurl w of
                    (Inl e, w1) \<Rightarrow> Some (Inl e, w1)
                  | (Inr found, w1) \<Rightarrow>
                      (case found of
                         Some (Path (c # cs)) \<Rightarrow>
                           Some (Inr (web_json_response
                             (JDict [(''short_url'', JStr (generate_full_url a (c # cs)))]) 200), w1)
                       | _ \<Rightarrow>
                           (case generate_unique_short_url_path a w1 of
                              None \<Rightarrow> None
                            | Some (x, w2) \<Rightarrow>
                                (case insert_url_mapping x lurl w2 of
                                   (Inl e, w3) \<Rightarrow> Some (Inl e, w3)
                                 | (Inr _, w3) \<Rightarrow>
                                     Some (Inr (web_json_response
                                       (JDict [(''short_url'',
                                          JStr (generate_full_url a (path_text a x)))]) 200),
                                       w3)))))))
      | Inr _ \<Rightarrow> Some (Inl TypeError, w))"

definition generate_short_url :: "app \<Rightarrow> request \<Rightarrow> world \<Rightarrow> (response \<times> world) option" where
  "generate_short_url a req w =
     reply (backoff GenerateShortUrl 2 10 (generate_short_url_body a req) w)"

text \<open>\<^verbatim>\<open>redirect_to_original_url\<close> carries no decorator: what it raises, the caller gets.\<close>

definition redirect_to_original_url :: "app \<Rightarrow> request \<Rightarrow> world \<Rightarrow> response result" where
  "redirect_to_original_url a req w =
     (let spath = match_short_url_path req in
      if spath = [] then (Inr (web_Response ''short url path was not provided'' 400), w)
      else
        (case find_long_url_by_short_url_path spath w of
           (Inl e, w1) \<Rightarrow> (Inl e, w1)
         | (Inr found, w1) \<Rightarrow>
             (case found of
                None \<Rightarrow> (Inr (web_Response ''urls were not found'' 400), w1)
              | Some lurl \<Rightarrow>
                  if \<not> truthy lurl then (Inr (web_Response ''urls were not found'' 400), w1)
                  else
                    (case increment_short_url_path_counter spath w1 of
                       (Inl e, w2) \<Rightarrow> (Inl e, w2)
                     | (Inr _, w2) \<Rightarrow> (Inl (HTTPFound lurl), w2)))))"

definition get_long_url_body :: "app \<Rightarrow> request \<Rightarrow> world \<Rightarrow> response result option" where
  "get_long_url_body a req w =
     (let spath = match_short_url_path req in
      if spath = [] then Some (Inr (web_Response ''short url path was not provided'' 400), w)
      else
        (case find_long_url_by_short_url_path spath w of
           (Inl e, w1) \<Rightarrow> Some (Inl e, w1)
         | (Inr found, w1) \<Rightarrow>
             (case found of
                None \<Rightarrow> Some (Inr (web_Response ''long url doesn't exist'' 400), w1)
              | Some lurl \<Rightarrow>
                  if \<not> truthy lurl then Some (Inr (web_Response ''long url doesn't exist'' 400), w1)
                  else Some (Inr (web_json_response (JDict [(''long_url'', lurl)]) 200), w1))))"

definition get_long_url :: "app \<Rightarrow> request \<Rightarrow> world \<Rightarrow> (response \<times> world) option" where
  "get_long_url a req w = reply (backoff GetLongUrl 2 10 (get_long_url_body a req) w)"

definition get_short_url_visits_body :: "app \<Rightarrow> request \<Rightarrow> world \<Rightarrow> response result option" where
  "get_short_url_visits_body a req w =
     (let spath = match_short_url_path req in
      if spath = [] then Some (Inr (web_Response ''short url path was not provided'' 400), w)
      else
        (case find_short_url_path_visits spath w of
           (Inl e, w1) \<Rightarrow> Some (Inl e, w1)
         | (Inr v, w1) \<Rightarrow>
             Some (Inr (web_json_response
               (JDict [(''visits'', case v of None \<Rightarrow> JNull | Some n \<Rightarrow> JInt n)]) 200), w1)))"

definition get_short_url_visits :: "app \<Rightarrow> request \<Rightarrow> world \<Rightarrow> (response \<times> world) option" where
  "get_short_url_visits a req w =
     reply (backoff GetShortUrlVisits 2 10 (get_short_url_visits_body a req) w)"

text \<open>The state in which main.py starts serving: every decoration has put
  \<^verbatim>\<open>start_sleep_time = 0.1\<close> in its cell.\<close>

definition start_world :: "url_mapping list \<Rightarrow> event list \<Rightarrow> (nat \<Rightarrow> nat) \<Rightarrow> world" where
  "start_world col es r =
     \<lparr>urls_col = col, script = es, rng = r, sleeps = [], errlog = [],
      current_sleep_time = (\<lambda>_. 1 / 10)\<rparr>"

text \<open>The exceptions that reach the decorator's last \<^verbatim>\<open>except Exception\<close> clause.\<close>

definition retried :: "exn \<Rightarrow> bool" where
  "retried e = (case e of JSONDecodeError \<Rightarrow> False | ValidationError _ \<Rightarrow> False | _ \<Rightarrow> True)"

text \<open>
  The world in which a call of the decorated function \<open>k\<close> is after its first \<open>n\<close>
  attempts have failed, each with an exception that is logged and slept on; \<open>None\<close> if
  the call does not begin with \<open>n\<close> such attempts.
\<close>

fun failed_attempts ::
  "wrapped \<Rightarrow> rat \<Rightarrow> rat \<Rightarrow> (world \<Rightarrow> 'a result option) \<Rightarrow> nat \<Rightarrow> world \<Rightarrow> world option" where
  "failed_attempts k factor border func 0 w = Some w"
| "failed_attempts k factor border func (Suc n) w =
     (if current_sleep_time w k < border then
        (case func w of
           Some (Inl e, w1) \<Rightarrow>
             if retried e then failed_attempts k factor border func n (penalise k factor e w1)
             else None
         | _ \<Rightarrow> None)
      else None)"

text \<open>What the decorator answers at once to the outcome of an attempt, if anything.\<close>

definition answer :: "exn + 'a \<Rightarrow> (response + 'a) option" where
  "answer x =
     (case x of
        Inr v \<Rightarrow> Some (Inr v)
      | Inl JSONDecodeError \<Rightarrow>
          Some (Inl (web_Response ''Invalid JSON data in the request body.'' 400))
      | Inl (ValidationError es) \<Rightarrow>
          Some (Inl (web_json_response (JDict [(''errors'', field_errors es)]) 400))
      | Inl _ \<Rightarrow> None)"

section \<open>main.py: the routes, and runs of the service\<close>

datatype call = Generate request | Redirect request | GetLong request | Visits request

text \<open>The world after a call has been served; \<open>None\<close> when the call never returns.\<close>

fun serve :: "app \<Rightarrow> call \<Rightarrow> world \<Rightarrow> world option" where
  "serve a (Generate req) w = map_option snd (generate_short_url a req w)"
| "serve a (Redirect req) w = Some (snd (redirect_to_original_url a req w))"
| "serve a (GetLong req) w = map_option snd (get_long_url a req w)"
| "serve a (Visits req) w = map_option snd (get_short_url_visits a req w)"

fun serve_all :: "app \<Rightarrow> call list \<Rightarrow> world \<Rightarrow> world option" where
  "serve_all a [] w = Some w"
| "serve_all a (c # cs) w = (case serve a c w of None \<Rightarrow> None | Some w1 \<Rightarrow> serve_all a cs w1)"

section \<open>Reading the collection\<close>

definition visits_of :: "stored_path \<Rightarrow> url_mapping list \<Rightarrow> int option" where
  "visits_of p col = map_option visits (find (\<lambda>d. short_url_path d = p) col)"

definition path_of_url :: "json \<Rightarrow> url_mapping list \<Rightarrow> stored_path option" where
  "path_of_url u col = map_option short_url_path (find (\<lambda>d. long_url d = u) col)"

text \<open>
  How the collection may change while requests are served: a counter that is there stays
  and does not go down, a long URL that has a short path keeps it, and long URLs stay
  unique if they were.
\<close>

definition store_grows :: "url_mapping list \<Rightarrow> url_mapping list \<Rightarrow> bool" where
  "store_grows col col' \<longleftrightarrow>
     (\<forall>p n. visits_of p col = Some n \<longrightarrow> (\<exists>m. n \<le> m \<and> visits_of p col' = Some m)) \<and>
     (\<forall>u p. path_of_url u col = Some p \<longrightarrow> path_of_url u col' = Some p) \<and>
     (distinct (map long_url col) \<longrightarrow> distinct (map long_url col'))"

definition evolves :: "world \<Rightarrow> world \<Rightarrow> bool" where
  "evolves w w' \<longleftrightarrow>
     store_grows (urls_col w) (urls_col w') \<and>
     (\<forall>k. 0 < current_sleep_time w k \<longrightarrow> current_sleep_time w k \<le> current_sleep_time w' k)"

section \<open>Concrete data for the examples\<close>

definition zeros :: "nat \<Rightarrow> nat" where
  "zeros i = 0"

definition counting :: "nat \<Rightarrow> nat" where
  "counting i = i"

text \<open>
  The application as main.py builds it, for the domain of the spec's scenario. The
  validator of the examples stands in for pydantic's on the strings that occur in them:
  it accepts those that begin with \<^verbatim>\<open>http://\<close> or \<^verbatim>\<open>https://\<close>, and rejects the
  empty string and a text without a scheme with the messages pydantic has for them.
  \<open>example_repr\<close> is the text aiohttp gives for the decorator's 500 response, which has
  not been sent when the handler formats it.
\<close>

definition has_scheme :: "string \<Rightarrow> bool" where
  "has_scheme s = (take 7 s = ''http://'' \<or> take 8 s = ''https://'')"

definition example_validator :: "string \<Rightarrow> string option" where
  "example_validator s =
     (if has_scheme s then None
      else if s = [] then Some ''Input should be a valid URL, input is empty''
      else Some ''Input should be a valid URL, relative URL without a base'')"

definition example_repr :: "response \<Rightarrow> string" where
  "example_repr r = ''<Response Internal Server Error not prepared>''"

definition svc :: app where
  "svc = \<lparr>link_length = 5, domain = ''svc.test'', protocol = ''https'',
           AnyUrl = example_validator, Response_repr = example_repr\<rparr>"

definition example_doc :: url_mapping where
  "example_doc =
     \<lparr>short_url_path = Path ''abc12'', long_url = JStr ''https://example.com/a'', visits = 0\<rparr>"

text \<open>A GET for a path (no body: reading one as JSON would raise), and a POST of a
  JSON value.\<close>

definition get_req :: "string \<Rightarrow> request" where
  "get_req p = \<lparr>json_body = Inl JSONDecodeError, match_short_url_path = p\<rparr>"

definition post_req :: "json \<Rightarrow> request" where
  "post_req v = \<lparr>json_body = Inr v, match_short_url_path = []\<rparr>"

definition outage :: "event list" where
  "outage = [Fault ''down'', Fault ''down'', Fault ''down'', Fault ''down'',
             Fault ''down'', Fault ''down'', Fault ''down'']"

text \<open>The world after seven failed attempts at \<open>get_long_url\<close> during an outage.\<close>

definition after_outage :: world where
  "after_outage =
     \<lparr>urls_col = [example_doc], script = [], rng = zeros,
      sleeps = [1 / 10, 1 / 5, 2 / 5, 4 / 5, 8 / 5, 16 / 5, 32 / 5],
      errlog = [ConnectionFailure ''down'', ConnectionFailure ''down'', ConnectionFailure ''down'',
                ConnectionFailure ''down'', ConnectionFailure ''down'', ConnectionFailure ''down'',
                ConnectionFailure ''down''],
      current_sleep_time = (\<lambda>_. 1 / 10)(GetLongUrl := 64 / 5)\<rparr>"

text \<open>The world after one failed attempt at \<open>get_long_url\<close>, the database being back.\<close>

definition after_blip :: world where
  "after_blip =
     \<lparr>urls_col = [example_doc], script = [], rng = zeros,
      sleeps = [1 / 10], errlog = [ConnectionFailure ''down''],
      current_sleep_time = (\<lambda>_. 1 / 10)(GetLongUrl := 1 / 5)\<rparr>"

text \<open>The world after a POST whose body is the JSON array \<^verbatim>\<open>[]\<close>: seven attempts, each
  ended by the \<open>TypeError\<close> of \<^verbatim>\<open>**data\<close>.\<close>

definition after_bad_body :: world where
  "after_bad_body =
     \<lparr>urls_col = [], script = [], rng = zeros,
      sleeps = [1 / 10, 1 / 5, 2 / 5, 4 / 5, 8 / 5, 16 / 5, 32 / 5],
      errlog = [TypeError, TypeError, TypeError, TypeError, TypeError, TypeError, TypeError],
      current_sleep_time = (\<lambda>_. 1 / 10)(GenerateShortUrl := 64 / 5)\<rparr>"

text \<open>A record that another client stores.\<close>

definition other_doc :: url_mapping where
  "other_doc =
     \<lparr>short_url_path = Path ''zzz99'', long_url = JStr ''https://other.example/z'', visits = 0\<rparr>"

text \<open>
  Seven attempts at one POST, each losing a race: the lookup by long URL and the
  existence check go through, and just before the insert another client inserts a mapping
  with the very path that was drawn (for a long URL of its own).
\<close>

definition rival :: "string \<Rightarrow> string \<Rightarrow> event list" where
  "rival path other =
     [Proceed, Proceed,
      Interleave \<lparr>short_url_path = Path path, long_url = JStr other, visits = 0\<rparr>]"

definition race :: "event list" where
  "race = rival ''abcde'' ''https://other.example/1'' @ rival ''fghij'' ''https://other.example/2'' @
          rival ''klmno'' ''https://other.example/3'' @ rival ''pqrst'' ''https://other.example/4'' @
          rival ''uvwxy'' ''https://other.example/5'' @ rival ''zABCD'' ''https://other.example/6'' @
          rival ''EFGHI'' ''https://other.example/7''"

definition example_post :: request where
  "example_post = post_req (JDict [(''long_url'', JStr ''https://example.com/a'')])"

text \<open>A world in which earlier failures have taken the cell of \<open>generate_short_url\<close> to
  6.4, with one lost race ahead; and the world in which the handler then raises.\<close>

definition worn :: world where
  "worn =
     \<lparr>urls_col = [], script = rival ''aaaaa'' ''https://other.example/1'', rng = zeros,
      sleeps = [], errlog = [],
      current_sleep_time = (\<lambda>_. 1 / 10)(GenerateShortUrl := 32 / 5)\<rparr>"

definition lost_race :: world where
  "lost_race =
     \<lparr>urls_col = [\<lparr>short_url_path = Path ''aaaaa'', long_url = JStr ''https://other.example/1'',
                   visits = 0\<rparr>],
      script = [], rng = zeros, sleeps = [], errlog = [],
      current_sleep_time = (\<lambda>_. 1 / 10)(GenerateShortUrl := 32 / 5)\<rparr>"

text \<open>The 200 response of \<open>generate_short_url\<close> for a short path.\<close>

definition short_url_response :: "app \<Rightarrow> string \<Rightarrow> response" where
  "short_url_response a p =
     web_json_response (JDict [(''short_url'', JStr (generate_full_url a p))]) 200"

text \<open>The fresh service after the first POST of the example URL, with a random source
  that draws \<open>aaaaa\<close>.\<close>

definition after_first_post :: world where
  "after_first_post =
     start_world [\<lparr>short_url_path = Path ''aaaaa'', long_url = JStr ''https://example.com/a'',
                   visits = 0\<rparr>] [] zeros"

text \<open>
  A database that answers the lookup by long URL and then fails seven times, so that
  the existence check of the path generator fails at each of its attempts; the world
  after the POST of the example URL to the fresh service with that database, and the
  world after the second POST of the same URL, when the database is back.
\<close>

definition flaky_check :: "event list" where
  "flaky_check = Proceed # outage"

definition after_flaky_check :: world where
  "after_flaky_check =
     \<lparr>urls_col = [\<lparr>short_url_path = Embedded, long_url = JStr ''https://example.com/a'',
                   visits = 0\<rparr>],
      script = [], rng = zeros,
      sleeps = [1 / 10, 1 / 5, 2 / 5, 4 / 5, 8 / 5, 16 / 5, 32 / 5],
      errlog = [ConnectionFailure ''down'', ConnectionFailure ''down'', ConnectionFailure ''down'',
                ConnectionFailure ''down'', ConnectionFailure ''down'', ConnectionFailure ''down'',
                ConnectionFailure ''down''],
      current_sleep_time = (\<lambda>_. 1 / 10)(GenerateUniquePath := 64 / 5)\<rparr>"

definition after_second_post :: world where
  "after_second_post =
     after_flaky_check
       \<lparr>sleeps := sleeps after_flaky_check @ [1 / 10, 1 / 5, 2 / 5, 4 / 5, 8 / 5, 16 / 5, 32 / 5],
        errlog := errlog after_flaky_check @
          [DuplicateKeyError, DuplicateKeyError, DuplicateKeyError, DuplicateKeyError,
           DuplicateKeyError, DuplicateKeyError, DuplicateKeyError],
        current_sleep_time := (\<lambda>_. 1 / 10)(GenerateUniquePath := 64 / 5, GenerateShortUrl := 64 / 5)\<rparr>"

section \<open>Properties\<close>

subsection \<open>One turn of the backoff loop\<close>

lemma backoff_exhausted:
  "border \<le> current_sleep_time w k \<Longrightarrow>
   backoff k factor border func w = Some (Inl internal_error, w)"
  by (subst backoff.simps) simp

lemma backoff_return:
  "current_sleep_time w k < border \<Longrightarrow> func w = Some (Inr v, w1) \<Longrightarrow>
   backoff k factor border func w = Some (Inr v, w1)"
  by (subst backoff.simps) simp

lemma backoff_retry:
  "current_sleep_time w k < border \<Longrightarrow> func w = Some (Inl e, w1) \<Longrightarrow> retried e \<Longrightarrow>
   backoff k factor border func w = backoff k factor border func (penalise k factor e w1)"
  by (subst backoff.simps) (simp add: retried_def split: exn.splits)

lemma backoff_diverge:
  "current_sleep_time w k < border \<Longrightarrow> func w = None \<Longrightarrow>
   backoff k factor border func w = None"
  by (subst backoff.simps) simp

lemma penalise_simps:
  "current_sleep_time (penalise k factor e w) k = current_sleep_time w k * factor"
  "k' \<noteq> k \<Longrightarrow> current_sleep_time (penalise k factor e w) k' = current_sleep_time w k'"
  "sleeps (penalise k factor e w) = sleeps w @ [current_sleep_time w k]"
  "errlog (penalise k factor e w) = errlog w @ [e]"
  "urls_col (penalise k factor e w) = urls_col w"
  "script (penalise k factor e w) = script w"
  "rng (penalise k factor e w) = rng w"
  by (simp_all add: penalise_def)

lemma failing_attempt:
  assumes fails: "\<And>v. \<exists>e v'. func v = Some (Inl e, v') \<and> retried e \<and>
            current_sleep_time v' k = current_sleep_time v k \<and> sleeps v' = sleeps v"
    and d: "current_sleep_time w k = d" "d < border"
  shows "\<exists>w'. backoff k factor border func w = backoff k factor border func w' \<and>
           current_sleep_time w' k = d * factor \<and> sleeps w' = sleeps w @ [d]"
proof -
  from fails [of w] obtain e v' where f: "func w = Some (Inl e, v')" "retried e"
    "current_sleep_time v' k = current_sleep_time w k" "sleeps v' = sleeps w" by blast
  have "backoff k factor border func w = backoff k factor border func (penalise k factor e v')"
    using backoff_retry [of w k border func e v' factor] f d by simp
  then show ?thesis
    using f d by (intro exI [of _ "penalise k factor e v'"]) (simp add: penalise_simps)
qed

lemma answer_None: "answer x = None \<longleftrightarrow> (\<exists>e. x = Inl e \<and> retried e)"
  by (auto simp: answer_def retried_def split: sum.splits exn.splits)

lemma backoff_unfold:
  "backoff k factor border func w =
     (if current_sleep_time w k < border then
        (case func w of
           None \<Rightarrow> None
         | Some (x, w1) \<Rightarrow>
             (case answer x of
                Some r \<Rightarrow> Some (r, w1)
              | None \<Rightarrow> backoff k factor border func (penalise k factor (projl x) w1)))
      else Some (Inl internal_error, w))"
  by (subst backoff.simps) (simp add: answer_def split: option.splits sum.splits exn.splits)

lemma answer_Inr: "answer y = Some (Inr p) \<longleftrightarrow> y = Inr p"
  by (auto simp: answer_def split: sum.splits exn.splits)

subsection \<open>How the collection changes\<close>

lemma store_grows_refl: "store_grows col col"
  by (simp add: store_grows_def)

lemma store_grows_trans: "store_grows c1 c2 \<Longrightarrow> store_grows c2 c3 \<Longrightarrow> store_grows c1 c3"
  unfolding store_grows_def by (meson order_trans)

lemma find_snoc: "find P (xs @ [x]) = (case find P xs of Some y \<Rightarrow> Some y | None \<Rightarrow> if P x then Some x else None)"
  by (induction xs) auto

lemma store_grows_insert:
  assumes "store_insert d col = Some col'"
  shows "store_grows col col'"
proof -
  from assms have col': "col' = col @ [d]"
    and fresh: "\<forall>x\<in>set col. short_url_path x \<noteq> short_url_path d \<and> long_url x \<noteq> long_url d"
    by (auto simp: store_insert_def list_ex_iff split: if_splits)
  show ?thesis
    unfolding store_grows_def col' using fresh
    by (auto simp: visits_of_def path_of_url_def find_snoc)
qed

lemma map_keys_inc_first:
  "map long_url (inc_first P col) = map long_url col"
  "map short_url_path (inc_first P col) = map short_url_path col"
  by (induction col) auto

lemma path_of_url_inc_first: "path_of_url u (inc_first P col) = path_of_url u col"
  by (induction col) (auto simp: path_of_url_def)

lemma visits_of_inc_first:
  "visits_of q (inc_first (\<lambda>d. short_url_path d = p) col) =
     (if q = p then map_option (\<lambda>n. n + 1) (visits_of p col) else visits_of q col)"
  by (induction col) (auto simp: visits_of_def)

lemma store_grows_inc_first: "store_grows col (inc_first (\<lambda>d. short_url_path d = p) col)"
  unfolding store_grows_def
  by (auto simp: path_of_url_inc_first visits_of_inc_first map_keys_inc_first)


subsection \<open>Every operation of the gateway lets the world evolve\<close>

lemma evolves_refl: "evolves w w"
  by (simp add: evolves_def store_grows_refl)

lemma evolves_trans: "evolves w1 w2 \<Longrightarrow> evolves w2 w3 \<Longrightarrow> evolves w1 w3"
  unfolding evolves_def by (meson store_grows_trans order_trans less_le_trans)

lemma round_trip_frame:
  assumes "round_trip w = (x, w')"
  shows "current_sleep_time w' = current_sleep_time w" "sleeps w' = sleeps w"
    "errlog w' = errlog w" "rng w' = rng w"
  using assms by (auto simp: round_trip_def split: list.splits event.splits)

lemma round_trip_store:
  assumes "round_trip w = (x, w')"
  shows "store_grows (urls_col w) (urls_col w')"
  using assms
  by (auto simp: round_trip_def store_grows_refl store_grows_insert
      split: list.splits event.splits option.splits)

lemma round_trip_evolves: "round_trip w = (x, w') \<Longrightarrow> evolves w w'"
  by (simp add: evolves_def round_trip_store round_trip_frame)

lemma find_one_evolves: "find_one_by_key_value m sel w = (x, w') \<Longrightarrow> evolves w w'"
  by (auto simp: find_one_by_key_value_def split: prod.splits sum.splits dest: round_trip_evolves)

lemma insert_url_mapping_evolves:
  assumes "insert_url_mapping p u w = (x, w')"
  shows "evolves w w'"
proof -
  obtain y w1 where rt: "round_trip w = (y, w1)" by (cases "round_trip w")
  have "evolves w1 w'"
    using assms rt
    by (auto simp: insert_url_mapping_def evolves_def store_grows_refl store_grows_insert
        split: sum.splits option.splits)
  with round_trip_evolves [OF rt] show ?thesis by (rule evolves_trans)
qed

lemma increment_evolves:
  assumes "increment_short_url_path_counter p w = (x, w')"
  shows "evolves w w'"
proof -
  obtain y w1 where rt: "round_trip w = (y, w1)" by (cases "round_trip w")
  have "evolves w1 w'"
    using assms rt
    by (auto simp: increment_short_url_path_counter_def evolves_def store_grows_refl
        store_grows_inc_first split: sum.splits)
  with round_trip_evolves [OF rt] show ?thesis by (rule evolves_trans)
qed

lemma is_short_url_path_exist_evolves: "is_short_url_path_exist p w = (x, w') \<Longrightarrow> evolves w w'"
  by (auto simp: is_short_url_path_exist_def split: prod.splits sum.splits dest: find_one_evolves)

lemma penalise_evolves: "1 \<le> factor \<Longrightarrow> evolves w (penalise k factor e w)"
  by (auto simp: evolves_def penalise_def store_grows_refl mult_le_cancel_left1)

lemma random_chars_frame:
  "random_chars n w = (cs, w') \<Longrightarrow>
     urls_col w' = urls_col w \<and> script w' = script w \<and> sleeps w' = sleeps w \<and>
     errlog w' = errlog w \<and> current_sleep_time w' = current_sleep_time w \<and> length cs = n"
  by (induction n arbitrary: w cs w') (auto simp: random_choice_def split: prod.splits)

lemma generate_short_url_path_evolves: "generate_short_url_path a w = (p, w') \<Longrightarrow> evolves w w'"
  by (auto simp: generate_short_url_path_def evolves_def store_grows_refl dest: random_chars_frame)


subsection \<open>What the last turn of each loop tells\<close>

lemma backoff_last_attempt:
  assumes run: "backoff k factor border func w = Some (r, w')"
    and I: "I w"
    and func: "\<And>v x v'. I v \<Longrightarrow> current_sleep_time v k < border \<Longrightarrow> func v = Some (x, v') \<Longrightarrow> I v'"
    and pen: "\<And>v e. I v \<Longrightarrow> I (penalise k factor e v)"
  shows "\<exists>v. I v \<and> I w' \<and>
           (if current_sleep_time v k < border
            then \<exists>x. func v = Some (x, w') \<and> answer x = Some r
            else w' = v \<and> r = Inl internal_error)"
proof -
  let ?Q = "\<lambda>w0 y. I w0 \<longrightarrow>
        (\<exists>v. I v \<and> I (snd y) \<and>
           (if current_sleep_time v k < border
            then \<exists>x. func v = Some (x, snd y) \<and> answer x = Some (fst y)
            else snd y = v \<and> fst y = Inl internal_error))"
  let ?P = "\<lambda>k0 f0 b0 func0 w0 y.
        k0 = k \<longrightarrow> f0 = factor \<longrightarrow> b0 = border \<longrightarrow> func0 = func \<longrightarrow> ?Q w0 y"
  have "?P k factor border func w (r, w')"
  proof (rule backoff.raw_induct [where P = ?P, OF _ run], intro impI)
    fix bo k0 f0 b0 func0 w0 y
    assume IH: "\<And>k1 f1 b1 func1 w1 y1. bo k1 f1 b1 func1 w1 = Some y1 \<Longrightarrow> ?P k1 f1 b1 func1 w1 y1"
      and body: "(if current_sleep_time w0 k0 < b0 then
              (case func0 w0 of
                 None \<Rightarrow> None
               | Some (Inr v, w1) \<Rightarrow> Some (Inr v, w1)
               | Some (Inl JSONDecodeError, w1) \<Rightarrow>
                   Some (Inl (web_Response ''Invalid JSON data in the request body.'' 400), w1)
               | Some (Inl (ValidationError es), w1) \<Rightarrow>
                   Some (Inl (web_json_response (JDict [(''errors'', field_errors es)]) 400), w1)
               | Some (Inl e, w1) \<Rightarrow> bo k0 f0 b0 func0 (penalise k0 f0 e w1))
            else Some (Inl internal_error, w0)) = Some y"
      and eq: "k0 = k" "f0 = factor" "b0 = border" "func0 = func" and Iw: "I w0"
    show "\<exists>v. I v \<and> I (snd y) \<and>
           (if current_sleep_time v k < border
            then \<exists>x. func v = Some (x, snd y) \<and> answer x = Some (fst y)
            else snd y = v \<and> fst y = Inl internal_error)"
    proof (cases "current_sleep_time w0 k < border")
      case False
      with body eq have "y = (Inl internal_error, w0)" by simp
      with False Iw show ?thesis by (intro exI [of _ w0]) simp
    next
      case True
      with body eq obtain x w1 where f: "func w0 = Some (x, w1)"
        by (cases "func w0") auto
      have Iw1: "I w1" using func [OF Iw True f] .
      show ?thesis
      proof (cases "answer x")
        case (Some r0)
        with body eq True f have "y = (r0, w1)"
          by (auto simp: answer_def split: sum.splits exn.splits)
        with Some f True Iw Iw1 show ?thesis by (intro exI [of _ w0]) simp
      next
        case None
        then obtain e where e: "x = Inl e" "retried e" by (auto simp: answer_None)
        with body eq True f have "bo k factor border func (penalise k factor e w1) = Some y"
          by (auto simp: retried_def split: exn.splits)
        from IH [OF this] pen [OF Iw1, of e] show ?thesis by simp
      qed
    qed
  qed
  then have "?Q w (r, w')" by simp
  with I show ?thesis unfolding fst_conv snd_conv by blast
qed

lemma backoff_evolves:
  assumes run: "backoff k factor border func w = Some (r, w')"
    and func: "\<And>v x v'. func v = Some (x, v') \<Longrightarrow> evolves v v'"
    and factor: "1 \<le> factor"
  shows "evolves w w'"
proof -
  have "\<exists>v. evolves w v \<and> evolves w w' \<and>
           (if current_sleep_time v k < border
            then \<exists>x. func v = Some (x, w') \<and> answer x = Some r
            else w' = v \<and> r = Inl internal_error)"
    using run evolves_refl
  proof (rule backoff_last_attempt)
    fix v x v' assume "evolves w v" "func v = Some (x, v')"
    then show "evolves w v'" using func evolves_trans by blast
  next
    fix v e assume "evolves w v"
    then show "evolves w (penalise k factor e v)"
      using penalise_evolves [OF factor] evolves_trans by blast
  qed
  then show ?thesis by blast
qed

lemma unique_loop_last:
  assumes run: "unique_short_url_path_loop a w = Some (x, w')"
    and I: "I w"
    and step: "\<And>v p v1 r v2. I v \<Longrightarrow> generate_short_url_path a v = (p, v1) \<Longrightarrow>
                 is_short_url_path_exist p v1 = (r, v2) \<Longrightarrow> I v2"
  shows "I w' \<and> (\<exists>v p v1. I v \<and> generate_short_url_path a v = (p, v1) \<and>
            ((is_short_url_path_exist p v1 = (Inr False, w') \<and> x = Inr p) \<or>
             (\<exists>e. is_short_url_path_exist p v1 = (Inl e, w') \<and> x = Inl e)))"
proof -
  let ?Q = "\<lambda>w0 y. I w0 \<longrightarrow> I (snd y) \<and>
        (\<exists>v p v1. I v \<and> generate_short_url_path a v = (p, v1) \<and>
            ((is_short_url_path_exist p v1 = (Inr False, snd y) \<and> fst y = Inr p) \<or>
             (\<exists>e. is_short_url_path_exist p v1 = (Inl e, snd y) \<and> fst y = Inl e)))"
  let ?P = "\<lambda>a0 w0 y. a0 = a \<longrightarrow> ?Q w0 y"
  have "?P a w (x, w')"
  proof (rule unique_short_url_path_loop.raw_induct [where P = ?P, OF _ run], intro impI)
    fix lp a0 w0 y
    assume IH: "\<And>a1 w1 y1. lp a1 w1 = Some y1 \<Longrightarrow> ?P a1 w1 y1"
      and body: "(case generate_short_url_path a0 w0 of
                   (path, w1) \<Rightarrow>
                     (case is_short_url_path_exist path w1 of
                        (Inl e, w2) \<Rightarrow> Some (Inl e, w2)
                      | (Inr exists, w2) \<Rightarrow>
                          if \<not> exists then Some (Inr path, w2) else lp a0 w2)) = Some y"
      and eq: "a0 = a" and Iw: "I w0"
    obtain p v1 where g: "generate_short_url_path a w0 = (p, v1)"
      by (cases "generate_short_url_path a w0")
    obtain r v2 where ex: "is_short_url_path_exist p v1 = (r, v2)"
      by (cases "is_short_url_path_exist p v1")
    have Iv2: "I v2" using step [OF Iw g ex] .
    show "I (snd y) \<and>
        (\<exists>v p v1. I v \<and> generate_short_url_path a v = (p, v1) \<and>
            ((is_short_url_path_exist p v1 = (Inr False, snd y) \<and> fst y = Inr p) \<or>
             (\<exists>e. is_short_url_path_exist p v1 = (Inl e, snd y) \<and> fst y = Inl e)))"
    proof (cases r)
      case (Inl e)
      with body eq g ex have "y = (Inl e, v2)" by simp
      with Inl Iw Iv2 g ex show ?thesis by auto
    next
      case (Inr b)
      show ?thesis
      proof (cases b)
        case False
        with Inr body eq g ex have "y = (Inr p, v2)" by simp
        with False Inr Iw Iv2 g ex show ?thesis by auto
      next
        case True
        with Inr body eq g ex have "lp a v2 = Some y" by simp
        from IH [OF this] Iv2 show ?thesis by simp
      qed
    qed
  qed
  with I show ?thesis by simp
qed

lemma unique_loop_evolves:
  assumes "unique_short_url_path_loop a w = Some (x, w')"
  shows "evolves w w'"
proof -
  have "evolves w w' \<and> (\<exists>v p v1. evolves w v \<and> generate_short_url_path a v = (p, v1) \<and>
            ((is_short_url_path_exist p v1 = (Inr False, w') \<and> x = Inr p) \<or>
             (\<exists>e. is_short_url_path_exist p v1 = (Inl e, w') \<and> x = Inl e)))"
    using assms evolves_refl
  proof (rule unique_loop_last)
    fix v p v1 r v2
    assume "evolves w v" "generate_short_url_path a v = (p, v1)" "is_short_url_path_exist p v1 = (r, v2)"
    then show "evolves w v2"
      by (meson generate_short_url_path_evolves is_short_url_path_exist_evolves evolves_trans)
  qed
  then show ?thesis by simp
qed


subsection \<open>Every handler lets the world evolve\<close>

lemma generate_unique_short_url_path_evolves:
  "generate_unique_short_url_path a w = Some (r, w') \<Longrightarrow> evolves w w'"
  unfolding generate_unique_short_url_path_def
  by (erule backoff_evolves) (auto dest: unique_loop_evolves)

lemma find_short_url_path_by_long_url_evolves:
  "find_short_url_path_by_long_url u w = (x, w') \<Longrightarrow> evolves w w'"
  unfolding find_short_url_path_by_long_url_def by (rule find_one_evolves)

lemma find_long_url_by_short_url_path_evolves:
  "find_long_url_by_short_url_path p w = (x, w') \<Longrightarrow> evolves w w'"
  unfolding find_long_url_by_short_url_path_def by (rule find_one_evolves)

lemma find_short_url_path_visits_evolves:
  "find_short_url_path_visits p w = (x, w') \<Longrightarrow> evolves w w'"
  unfolding find_short_url_path_visits_def by (rule find_one_evolves)

lemma generate_short_url_body_evolves:
  assumes "generate_short_url_body a req w = Some (x, w')"
  shows "evolves w w'"
proof (cases "\<exists>data. json_body req = Inr (JDict data) \<and> GenerateShortURLInput a data = [] \<and>
                truthy (dict_get data ''long_url'')")
  case False
  with assms have "w' = w"
    by (auto simp: generate_short_url_body_def Let_def split: sum.splits json.splits list.splits)
  then show ?thesis by (simp add: evolves_refl)
next
  case True
  then obtain data where d: "json_body req = Inr (JDict data)" "GenerateShortURLInput a data = []"
    "truthy (dict_get data ''long_url'')" by blast
  let ?u = "dict_get data ''long_url''"
  obtain f w1 where fd: "find_short_url_path_by_long_url ?u w = (f, w1)"
    by (cases "find_short_url_path_by_long_url ?u w")
  note e1 = find_short_url_path_by_long_url_evolves [OF fd]
  show ?thesis
  proof (cases "\<exists>found. f = Inr found \<and> (\<forall>c cs. found \<noteq> Some (Path (c # cs)))")
    case False
    with assms d fd have "w' = w1"
      by (cases f)
        (auto simp: generate_short_url_body_def Let_def
          split: option.splits stored_path.splits list.splits)
    with e1 show ?thesis by simp
  next
    case True
    then obtain found where f: "f = Inr found" "\<forall>c cs. found \<noteq> Some (Path (c # cs))" by blast
    with assms d fd obtain g w2 where gu: "generate_unique_short_url_path a w1 = Some (g, w2)"
      by (cases "generate_unique_short_url_path a w1")
        (auto simp: generate_short_url_body_def Let_def
          split: option.splits stored_path.splits list.splits)
    note e2 = generate_unique_short_url_path_evolves [OF gu]
    obtain i w3 where ins: "insert_url_mapping g ?u w2 = (i, w3)"
      by (cases "insert_url_mapping g ?u w2")
    with assms d fd f gu have "w' = w3"
      by (auto simp: generate_short_url_body_def Let_def
          split: sum.splits option.splits stored_path.splits list.splits)
    with e1 e2 insert_url_mapping_evolves [OF ins] show ?thesis using evolves_trans by blast
  qed
qed

lemma reply_Some: "reply r = Some (x, w') \<Longrightarrow> \<exists>y. r = Some (y, w') \<and> x = (case y of Inl a \<Rightarrow> a | Inr b \<Rightarrow> b)"
  by (auto simp: reply_def)

lemma generate_short_url_evolves:
  "generate_short_url a req w = Some (r, w') \<Longrightarrow> evolves w w'"
  unfolding generate_short_url_def
  by (auto dest!: reply_Some elim!: backoff_evolves dest: generate_short_url_body_evolves)

lemma get_long_url_body_evolves:
  "get_long_url_body a req w = Some (x, w') \<Longrightarrow> evolves w w'"
  by (auto simp: get_long_url_body_def Let_def evolves_refl
      split: if_splits prod.splits sum.splits option.splits
      dest: find_long_url_by_short_url_path_evolves)

lemma get_long_url_evolves:
  "get_long_url a req w = Some (r, w') \<Longrightarrow> evolves w w'"
  unfolding get_long_url_def
  by (auto dest!: reply_Some elim!: backoff_evolves dest: get_long_url_body_evolves)

lemma get_short_url_visits_body_evolves:
  "get_short_url_visits_body a req w = Some (x, w') \<Longrightarrow> evolves w w'"
  by (auto simp: get_short_url_visits_body_def Let_def evolves_refl
      split: if_splits prod.splits sum.splits option.splits
      dest: find_short_url_path_visits_evolves)

lemma get_short_url_visits_evolves:
  "get_short_url_visits a req w = Some (r, w') \<Longrightarrow> evolves w w'"
  unfolding get_short_url_visits_def
  by (auto dest!: reply_Some elim!: backoff_evolves dest: get_short_url_visits_body_evolves)

lemma redirect_to_original_url_evolves:
  assumes "redirect_to_original_url a req w = (x, w')"
  shows "evolves w w'"
proof -
  let ?p = "match_short_url_path req"
  obtain f w1 where fd: "find_long_url_by_short_url_path ?p w = (f, w1)"
    by (cases "find_long_url_by_short_url_path ?p w")
  obtain i w2 where inc: "increment_short_url_path_counter ?p w1 = (i, w2)"
    by (cases "increment_short_url_path_counter ?p w1")
  from assms fd inc have "w' = w \<or> w' = w1 \<or> w' = w2"
    by (auto simp: redirect_to_original_url_def Let_def
        split: if_splits sum.splits option.splits)
  with find_long_url_by_short_url_path_evolves [OF fd] increment_evolves [OF inc]
  show ?thesis using evolves_refl evolves_trans by blast
qed

lemma redirect_snd_evolves: "evolves w (snd (redirect_to_original_url a req w))"
  by (rule redirect_to_original_url_evolves [of a req w "fst (redirect_to_original_url a req w)"]) simp

lemma serve_evolves: "serve a c w = Some w' \<Longrightarrow> evolves w w'"
  by (cases c)
    (auto dest: generate_short_url_evolves get_long_url_evolves get_short_url_visits_evolves
       simp: redirect_snd_evolves)

lemma serve_all_evolves: "serve_all a cs w = Some w' \<Longrightarrow> evolves w w'"
proof (induction cs arbitrary: w)
  case Nil
  then show ?case by (simp add: evolves_refl)
next
  case (Cons c cs)
  then show ?case
    by (auto split: option.splits dest: serve_evolves intro: evolves_trans)
qed

subsection \<open>Small facts used throughout, and the runs of the examples\<close>

lemma find_SomeD: "find P xs = Some x \<Longrightarrow> P x \<and> x \<in> set xs"
  by (induction xs) (auto split: if_splits)

lemma round_trip_not_redirect: "round_trip w \<noteq> (Inl (HTTPFound v), w')"
  by (auto simp: round_trip_def split: list.splits event.splits)

lemma quiet_round_trip: "script w = [] \<Longrightarrow> round_trip w = (Inr (), w)"
  by (simp add: round_trip_def)

lemma find_one_frame:
  assumes "find_one_by_key_value m sel w = (x, w')"
  shows "current_sleep_time w' = current_sleep_time w" "sleeps w' = sleeps w" "errlog w' = errlog w"
  using assms
  by (auto simp: find_one_by_key_value_def split: prod.splits sum.splits dest: round_trip_frame)

lemma get_long_url_body_frame:
  assumes "get_long_url_body a req w = Some (x, w')"
  shows "current_sleep_time w' = current_sleep_time w"
  using assms
  by (auto simp: get_long_url_body_def Let_def find_long_url_by_short_url_path_def
      split: if_splits prod.splits sum.splits option.splits dest: find_one_frame)

lemma failed_attempts_backoff:
  "failed_attempts k factor border func n w = Some v \<Longrightarrow>
   backoff k factor border func w = backoff k factor border func v"
proof (induction n arbitrary: w)
  case 0
  then show ?case by simp
next
  case (Suc n)
  from Suc.prems obtain e w1 where lt: "current_sleep_time w k < border"
    and f: "func w = Some (Inl e, w1)" and r: "retried e"
    and rest: "failed_attempts k factor border func n (penalise k factor e w1) = Some v"
    by (auto split: if_splits option.splits sum.splits)
  with backoff_retry [of w k border func e w1 factor] Suc.IH [OF rest] show ?case by simp
qed

lemma increment_not_redirect:
  "increment_short_url_path_counter p w \<noteq> (Inl (HTTPFound v), w')"
  using round_trip_not_redirect
  by (auto simp: increment_short_url_path_counter_def split: prod.splits sum.splits)

lemma evolves_cell:
  "evolves w w' \<Longrightarrow> 0 < current_sleep_time w k \<Longrightarrow>
   current_sleep_time w k \<le> current_sleep_time w' k"
  by (simp add: evolves_def)

lemmas eval_defs =
  bson_path_def
  start_world_def get_req_def post_req_def example_doc_def svc_def zeros_def
  find_long_url_by_short_url_path_def find_short_url_path_by_long_url_def
  find_short_url_path_visits_def is_short_url_path_exist_def find_one_by_key_value_def
  increment_short_url_path_counter_def insert_url_mapping_def round_trip_def store_insert_def
  penalise_def web_Response_def web_json_response_def internal_error_def reply_def

lemma unique_loop_first_draw:
  assumes "generate_short_url_path a w = (p, w1)"
    and "is_short_url_path_exist p w1 = (Inr False, w2)"
  shows "unique_short_url_path_loop a w = Some (Inr p, w2)"
  by (subst unique_short_url_path_loop.simps) (simp add: assms)

lemma zeros_shift: "(\<lambda>i. zeros (Suc i)) = zeros"
  by (simp add: zeros_def fun_eq_iff)

lemma random_choice_zeros: "rng w = zeros \<Longrightarrow> random_choice allowed_characters w = (CHR ''a'', w)"
  by (simp add: random_choice_def allowed_characters_def zeros_shift) (simp add: zeros_def)

lemma random_chars_zeros: "rng w = zeros \<Longrightarrow> random_chars n w = (replicate n (CHR ''a''), w)"
  by (induction n) (simp_all add: random_choice_zeros)

lemma outage_run:
  "backoff GetLongUrl 2 10 (get_long_url_body svc (get_req ''abc12''))
     (start_world [example_doc] outage zeros) = Some (Inl internal_error, after_outage)"
  by (simp add: backoff.simps get_long_url_body_def get_req_def start_world_def outage_def
      find_long_url_by_short_url_path_def find_one_by_key_value_def round_trip_def penalise_def
      after_outage_def)

lemma bad_body_run:
  "generate_short_url svc (post_req (JList [])) (start_world [] [] zeros) =
     Some (internal_error, after_bad_body)"
  by (simp add: generate_short_url_def generate_short_url_body_def backoff.simps reply_def
      post_req_def start_world_def penalise_def after_bad_body_def)

subsection \<open>C6: a function that always fails\<close>

text \<open>
  Claim C6 says that a call of a wrapped function that always raises is given a bounded
  number of attempts, the decorator sleeping 0.1, 0.2, 0.4, 0.8, 1.6, 3.2 and 6.4 in
  between, and is then answered with the 500 response. The code does so in the first
  call after the module is loaded, and in that call only. The cell is not put back to
  the first sleep time when a call begins: the first call leaves 12.8 in it, and the
  call after it finds the loop condition false and returns the 500 response at once,
  with no attempt and no sleep, although the comment on that return speaks of a function
  still failing after the maximum retries. Here \<open>func\<close> is any function that raises a
  retried exception on every attempt and leaves the decorator's cell and the sleep log
  alone, and \<open>later\<close> is any function at all. Every call returns: the results are
  \<open>Some\<close>. Doubling is exact in binary floating point, so the comparisons with 10 come
  out as on the rationals used here.
\<close>

theorem always_failing_function_two_calls:
  assumes fresh: "current_sleep_time w k = 1 / 10"
    and fails: "\<And>v. \<exists>e v'. func v = Some (Inl e, v') \<and> retried e \<and>
            current_sleep_time v' k = current_sleep_time v k \<and> sleeps v' = sleeps v"
  shows "\<exists>w'. backoff k 2 10 func w = Some (Inl internal_error, w') \<and>
           sleeps w' = sleeps w @ [1 / 10, 1 / 5, 2 / 5, 4 / 5, 8 / 5, 16 / 5, 32 / 5] \<and>
           current_sleep_time w' k = 64 / 5 \<and>
           backoff k 2 10 later w' = Some (Inl internal_error, w')"
proof -
  note step = failing_attempt [where func = func and k = k and factor = 2 and border = 10, OF fails]
  from step [OF fresh] obtain w1 where 1: "backoff k 2 10 func w = backoff k 2 10 func w1"
    "current_sleep_time w1 k = 1 / 5" "sleeps w1 = sleeps w @ [1 / 10]" by auto
  from step [OF 1(2)] obtain w2 where 2: "backoff k 2 10 func w1 = backoff k 2 10 func w2"
    "current_sleep_time w2 k = 2 / 5" "sleeps w2 = sleeps w1 @ [1 / 5]" by auto
  from step [OF 2(2)] obtain w3 where 3: "backoff k 2 10 func w2 = backoff k 2 10 func w3"
    "current_sleep_time w3 k = 4 / 5" "sleeps w3 = sleeps w2 @ [2 / 5]" by auto
  from step [OF 3(2)] obtain w4 where 4: "backoff k 2 10 func w3 = backoff k 2 10 func w4"
    "current_sleep_time w4 k = 8 / 5" "sleeps w4 = sleeps w3 @ [4 / 5]" by auto
  from step [OF 4(2)] obtain w5 where 5: "backoff k 2 10 func w4 = backoff k 2 10 func w5"
    "current_sleep_time w5 k = 16 / 5" "sleeps w5 = sleeps w4 @ [8 / 5]" by auto
  from step [OF 5(2)] obtain w6 where 6: "backoff k 2 10 func w5 = backoff k 2 10 func w6"
    "current_sleep_time w6 k = 32 / 5" "sleeps w6 = sleeps w5 @ [16 / 5]" by auto
  from step [OF 6(2)] obtain w7 where 7: "backoff k 2 10 func w6 = backoff k 2 10 func w7"
    "current_sleep_time w7 k = 64 / 5" "sleeps w7 = sleeps w6 @ [32 / 5]" by auto
  have first: "backoff k 2 10 func w7 = Some (Inl internal_error, w7)"
    using 7(2) by (intro backoff_exhausted) simp
  have second: "backoff k 2 10 later w7 = Some (Inl internal_error, w7)"
    using 7(2) by (intro backoff_exhausted) simp
  from first second show ?thesis
    using 1 2 3 4 5 6 7 by (intro exI [of _ w7]) simp
qed

theorem always_failing_function_two_calls_witness:
  "\<exists>w'. backoff GetLongUrl 2 10 (\<lambda>v. Some (Inl (ConnectionFailure ''down'') :: exn + response, v))
          (start_world [] [] zeros) = Some (Inl internal_error, w') \<and>
        sleeps w' = [1 / 10, 1 / 5, 2 / 5, 4 / 5, 8 / 5, 16 / 5, 32 / 5] \<and>
        current_sleep_time w' GetLongUrl = 64 / 5 \<and>
        backoff GetLongUrl 2 10 (\<lambda>v. Some (Inl (ConnectionFailure ''down'') :: exn + response, v)) w' =
          Some (Inl internal_error, w')"
  using always_failing_function_two_calls [of "start_world [] [] zeros" GetLongUrl
      "\<lambda>v. Some (Inl (ConnectionFailure ''down'') :: exn + response, v)"
      "\<lambda>v. Some (Inl (ConnectionFailure ''down'') :: exn + response, v)"]
  by (simp add: retried_def start_world_def)

text \<open>The same with an endpoint and a database that is down: the first GET is attempted
  seven times, the second not at all.\<close>

lemma outage_second_call:
  "get_long_url svc (get_req ''abc12'') (start_world [example_doc] outage zeros) =
     Some (internal_error, after_outage) \<and>
   get_long_url svc (get_req ''abc12'') (after_outage\<lparr>script := outage\<rparr>) =
     Some (internal_error, after_outage\<lparr>script := outage\<rparr>)"
  by (simp add: get_long_url_def outage_run reply_def)
    (simp add: backoff_exhausted after_outage_def)

subsection \<open>C4: the sleep time is shared between calls\<close>

lemma failed_attempts_cell:
  assumes frame: "\<And>v x v'. func v = Some (x, v') \<Longrightarrow>
                    current_sleep_time v' k = current_sleep_time v k"
  shows "failed_attempts k factor border func n w = Some v \<Longrightarrow>
         current_sleep_time v k = current_sleep_time w k * factor ^ n \<and>
         backoff k factor border func w = backoff k factor border func v"
proof (induction n arbitrary: w)
  case 0
  then show ?case by simp
next
  case (Suc n)
  from Suc.prems obtain e w1 where lt: "current_sleep_time w k < border"
    and f: "func w = Some (Inl e, w1)" and r: "retried e"
    and rest: "failed_attempts k factor border func n (penalise k factor e w1) = Some v"
    by (auto split: if_splits option.splits sum.splits)
  from Suc.IH [OF rest] frame [OF f]
  have "current_sleep_time v k = current_sleep_time w k * factor ^ Suc n"
    and "backoff k factor border func (penalise k factor e w1) = backoff k factor border func v"
    by (simp_all add: penalise_simps mult.assoc)
  with backoff_retry [of w k border func e w1 factor] lt f r show ?case by simp
qed

text \<open>
  Claim C4. The cell \<^verbatim>\<open>current_sleep_time\<close> belongs to the decoration, not to the call.
  Take a wrapped function \<open>func\<close> (it cannot reach the cell of its own decorator) and a
  call of it whose first \<open>n\<close> attempts fail. Those attempts multiply the cell by
  \<open>2 ^ n\<close>, and the call goes on from there. If the cell is still below the border and
  the next attempt is answered, the call returns that answer and leaves the multiplied
  cell behind: nothing puts it back, and after any requests \<open>cs\<close> served in between, a
  later call starts with at least that sleep time. If the cell has reached the border,
  the call returns the 500 response, and after any requests served in between a later
  call returns the 500 response and the world as it found it, whatever the wrapped
  function \<open>later\<close> is: the function is not run even once.
\<close>

theorem sleep_time_is_shared_between_calls:
  assumes frame: "\<And>v x v'. func v = Some (x, v') \<Longrightarrow>
                    current_sleep_time v' k = current_sleep_time v k"
    and pos: "0 < current_sleep_time w k"
    and failed: "failed_attempts k 2 10 func n w = Some v"
  shows "current_sleep_time v k = current_sleep_time w k * 2 ^ n \<and>
         backoff k 2 10 func w = backoff k 2 10 func v \<and>
         (current_sleep_time v k < 10 \<and> func v = Some (y, v') \<and> answer y = Some r \<longrightarrow>
            backoff k 2 10 func w = Some (r, v') \<and>
            current_sleep_time v' k = current_sleep_time w k * 2 ^ n \<and>
            (serve_all a cs v' = Some u \<longrightarrow>
               current_sleep_time w k * 2 ^ n \<le> current_sleep_time u k)) \<and>
         (10 \<le> current_sleep_time v k \<longrightarrow>
            backoff k 2 10 func w = Some (Inl internal_error, v) \<and>
            (serve_all a cs v = Some u \<longrightarrow>
               backoff k 2 10 later u = Some (Inl internal_error, u)))"
proof -
  from failed_attempts_cell [OF frame failed]
  have cell: "current_sleep_time v k = current_sleep_time w k * 2 ^ n"
    and go: "backoff k 2 10 func w = backoff k 2 10 func v"
    by simp_all
  have posv: "0 < current_sleep_time v k"
    using cell pos by simp
  have answered: "backoff k 2 10 func w = Some (r, v') \<and>
            current_sleep_time v' k = current_sleep_time w k * 2 ^ n \<and>
            (serve_all a cs v' = Some u \<longrightarrow>
               current_sleep_time w k * 2 ^ n \<le> current_sleep_time u k)"
    if lt: "current_sleep_time v k < 10" and f: "func v = Some (y, v')" and r: "answer y = Some r"
  proof -
    have "backoff k 2 10 func v = Some (r, v')"
      using lt f r by (subst backoff_unfold) simp
    moreover have c': "current_sleep_time v' k = current_sleep_time w k * 2 ^ n"
      using frame [OF f] cell by simp
    moreover have "current_sleep_time w k * 2 ^ n \<le> current_sleep_time u k"
      if "serve_all a cs v' = Some u"
      using evolves_cell [OF serve_all_evolves [OF that], of k] c' posv cell by simp
    ultimately show ?thesis using go by simp
  qed
  have gave_up: "backoff k 2 10 func w = Some (Inl internal_error, v) \<and>
            (serve_all a cs v = Some u \<longrightarrow>
               backoff k 2 10 later u = Some (Inl internal_error, u))"
    if ge: "10 \<le> current_sleep_time v k"
  proof -
    have "backoff k 2 10 func v = Some (Inl internal_error, v)"
      using ge by (rule backoff_exhausted)
    moreover have "backoff k 2 10 later u = Some (Inl internal_error, u)"
      if "serve_all a cs v = Some u"
      using evolves_cell [OF serve_all_evolves [OF that], of k] posv ge
      by (intro backoff_exhausted) simp
    ultimately show ?thesis using go by simp
  qed
  from cell go answered gave_up show ?thesis by blast
qed

lemma outage_attempts:
  "failed_attempts GetLongUrl 2 10 (get_long_url_body svc (get_req ''abc12'')) 7
     (start_world [example_doc] outage zeros) = Some after_outage"
  by (simp add: eval_nat_numeral get_long_url_body_def get_req_def start_world_def outage_def
      find_long_url_by_short_url_path_def find_one_by_key_value_def round_trip_def penalise_def
      after_outage_def retried_def)

lemma blip_attempt:
  "failed_attempts GetLongUrl 2 10 (get_long_url_body svc (get_req ''abc12'')) 1
     (start_world [example_doc] [Fault ''down''] zeros) = Some after_blip"
  by (simp add: get_long_url_body_def get_req_def start_world_def
      find_long_url_by_short_url_path_def find_one_by_key_value_def round_trip_def penalise_def
      after_blip_def retried_def)

theorem sleep_time_is_shared_between_calls_witness:
  "current_sleep_time after_blip GetLongUrl =
     current_sleep_time (start_world [example_doc] [Fault ''down''] zeros) GetLongUrl * 2 ^ 1 \<and>
   backoff GetLongUrl 2 10 (get_long_url_body svc (get_req ''abc12''))
       (start_world [example_doc] [Fault ''down''] zeros) =
     Some (Inr (web_json_response (JDict [(''long_url'', JStr ''https://example.com/a'')]) 200),
           after_blip) \<and>
   current_sleep_time (start_world [example_doc] [Fault ''down''] zeros) GetLongUrl * 2 ^ 1
     \<le> current_sleep_time after_blip GetLongUrl \<and>
   current_sleep_time after_outage GetLongUrl =
     current_sleep_time (start_world [example_doc] outage zeros) GetLongUrl * 2 ^ 7 \<and>
   backoff GetLongUrl 2 10 (get_long_url_body svc (get_req ''abc12''))
       (start_world [example_doc] outage zeros) = Some (Inl internal_error, after_outage) \<and>
   backoff GetLongUrl 2 10 (get_long_url_body svc (get_req ''abc12'')) after_outage =
     Some (Inl internal_error, after_outage)"
proof -
  let ?f = "get_long_url_body svc (get_req ''abc12'')"
  let ?ok = "web_json_response (JDict [(''long_url'', JStr ''https://example.com/a'')]) 200"
  have frame: "current_sleep_time v' GetLongUrl = current_sleep_time v GetLongUrl"
    if "?f v = Some (x, v')" for v x v'
    using get_long_url_body_frame [OF that] by simp
  have pos1: "0 < current_sleep_time (start_world [example_doc] [Fault ''down''] zeros) GetLongUrl"
    and pos7: "0 < current_sleep_time (start_world [example_doc] outage zeros) GetLongUrl"
    by (simp_all add: start_world_def)
  have lt: "current_sleep_time after_blip GetLongUrl < 10"
    and ge: "10 \<le> current_sleep_time after_outage GetLongUrl"
    by (simp_all add: after_blip_def after_outage_def)
  have f: "?f after_blip = Some (Inr ?ok, after_blip)"
    by (simp add: get_long_url_body_def get_req_def after_blip_def example_doc_def
        find_long_url_by_short_url_path_def find_one_by_key_value_def round_trip_def)
  have ans: "answer (Inr ?ok :: exn + response) = Some (Inr ?ok)"
    by (simp add: answer_def)
  have idle: "serve_all svc [] after_blip = Some after_blip"
    by simp
  have between: "serve_all svc [GetLong (get_req ''abc12'')] after_outage = Some after_outage"
    by (simp add: get_long_url_def reply_def backoff_exhausted after_outage_def)
  have "current_sleep_time after_blip GetLongUrl =
       current_sleep_time (start_world [example_doc] [Fault ''down''] zeros) GetLongUrl * 2 ^ 1 \<and>
     backoff GetLongUrl 2 10 ?f (start_world [example_doc] [Fault ''down''] zeros) =
       backoff GetLongUrl 2 10 ?f after_blip \<and>
     (current_sleep_time after_blip GetLongUrl < 10 \<and> ?f after_blip = Some (Inr ?ok, after_blip) \<and>
      answer (Inr ?ok :: exn + response) = Some (Inr ?ok) \<longrightarrow>
        backoff GetLongUrl 2 10 ?f (start_world [example_doc] [Fault ''down''] zeros) =
          Some (Inr ?ok, after_blip) \<and>
        current_sleep_time after_blip GetLongUrl =
          current_sleep_time (start_world [example_doc] [Fault ''down''] zeros) GetLongUrl * 2 ^ 1 \<and>
        (serve_all svc [] after_blip = Some after_blip \<longrightarrow>
           current_sleep_time (start_world [example_doc] [Fault ''down''] zeros) GetLongUrl * 2 ^ 1
             \<le> current_sleep_time after_blip GetLongUrl)) \<and>
     (10 \<le> current_sleep_time after_blip GetLongUrl \<longrightarrow>
        backoff GetLongUrl 2 10 ?f (start_world [example_doc] [Fault ''down''] zeros) =
          Some (Inl internal_error, after_blip) \<and>
        (serve_all svc [] after_blip = Some after_blip \<longrightarrow>
           backoff GetLongUrl 2 10 ?f after_blip = Some (Inl internal_error, after_blip)))"
    by (rule sleep_time_is_shared_between_calls [OF _ pos1 blip_attempt]) (erule frame)
  with lt f ans idle
  have one: "current_sleep_time after_blip GetLongUrl =
       current_sleep_time (start_world [example_doc] [Fault ''down''] zeros) GetLongUrl * 2 ^ 1"
    "backoff GetLongUrl 2 10 ?f (start_world [example_doc] [Fault ''down''] zeros) =
       Some (Inr ?ok, after_blip)"
    "current_sleep_time (start_world [example_doc] [Fault ''down''] zeros) GetLongUrl * 2 ^ 1
       \<le> current_sleep_time after_blip GetLongUrl"
    by blast+
  have "current_sleep_time after_outage GetLongUrl =
       current_sleep_time (start_world [example_doc] outage zeros) GetLongUrl * 2 ^ 7 \<and>
     backoff GetLongUrl 2 10 ?f (start_world [example_doc] outage zeros) =
       backoff GetLongUrl 2 10 ?f after_outage \<and>
     (current_sleep_time after_outage GetLongUrl < 10 \<and> ?f after_outage = Some (Inr ?ok, after_outage) \<and>
      answer (Inr ?ok :: exn + response) = Some (Inr ?ok) \<longrightarrow>
        backoff GetLongUrl 2 10 ?f (start_world [example_doc] outage zeros) =
          Some (Inr ?ok, after_outage) \<and>
        current_sleep_time after_outage GetLongUrl =
          current_sleep_time (start_world [example_doc] outage zeros) GetLongUrl * 2 ^ 7 \<and>
        (serve_all svc [GetLong (get_req ''abc12'')] after_outage = Some after_outage \<longrightarrow>
           current_sleep_time (start_world [example_doc] outage zeros) GetLongUrl * 2 ^ 7
             \<le> current_sleep_time after_outage GetLongUrl)) \<and>
     (10 \<le> current_sleep_time after_outage GetLongUrl \<longrightarrow>
        backoff GetLongUrl 2 10 ?f (start_world [example_doc] outage zeros) =
          Some (Inl internal_error, after_outage) \<and>
        (serve_all svc [GetLong (get_req ''abc12'')] after_outage = Some after_outage \<longrightarrow>
           backoff GetLongUrl 2 10 ?f after_outage = Some (Inl internal_error, after_outage)))"
    by (rule sleep_time_is_shared_between_calls [OF _ pos7 outage_attempts]) (erule frame)
  with ge between
  have seven: "current_sleep_time after_outage GetLongUrl =
       current_sleep_time (start_world [example_doc] outage zeros) GetLongUrl * 2 ^ 7"
    "backoff GetLongUrl 2 10 ?f (start_world [example_doc] outage zeros) =
       Some (Inl internal_error, after_outage)"
    "backoff GetLongUrl 2 10 ?f after_outage = Some (Inl internal_error, after_outage)"
    by blast+
  from one seven show ?thesis by blast
qed

subsection \<open>C3: which endpoints the decorator governs\<close>

text \<open>
  Claim C3 says that the decorator governs all four endpoints. \<open>redirect_to_original_url\<close>
  is registered without it: when its lookup meets a connection failure, the exception
  goes to the caller as it is, nothing is logged, there is no sleep and no second
  attempt.
\<close>

theorem redirect_is_not_retried:
  "redirect_to_original_url svc (get_req ''abc12'') (start_world [example_doc] [Fault ''down''] zeros) =
     (Inl (ConnectionFailure ''down''), start_world [example_doc] [] zeros)"
  by (simp add: redirect_to_original_url_def eval_defs)

text \<open>
  Claim C3, amended. The decorator governs three endpoints: \<open>generate_short_url\<close>,
  \<open>get_long_url\<close> and \<open>get_short_url_visits\<close>. For each of them, with \<open>func\<close> the body
  of the handler: an attempt that raises to the decorator an exception other than the
  two answered with 400 is logged, the decorator sleeps for the time in its cell,
  multiplies the cell by two and runs the handler again; a call whose first \<open>n\<close>
  attempts fail so and bring the cell to the border or beyond returns the 500
  response; with the cell at the border or beyond already, the endpoint returns the 500
  response at once. An endpoint of the three returns responses only.
  \<open>redirect_to_original_url\<close> is outside: what its lookup raises, or its increment after
  a lookup that found a long URL, the caller gets, in the world the failed call left,
  with nothing logged and no sleep. What is raised inside the path generator of
  \<open>generate_short_url\<close> is no exception for the endpoint: that function has a decorator
  of its own and returns a value (see C7).
\<close>

theorem decorator_governs_three_endpoints:
  assumes "(k, func, endpoint) =
             (GenerateShortUrl, generate_short_url_body a req, generate_short_url a req) \<or>
           (k, func, endpoint) = (GetLongUrl, get_long_url_body a req, get_long_url a req) \<or>
           (k, func, endpoint) =
             (GetShortUrlVisits, get_short_url_visits_body a req, get_short_url_visits a req)"
  shows "(current_sleep_time w k < 10 \<and> func w = Some (Inl e, w1) \<and> retried e \<longrightarrow>
            endpoint w = endpoint (penalise k 2 e w1)) \<and>
         (failed_attempts k 2 10 func n w = Some w2 \<and> 10 \<le> current_sleep_time w2 k \<longrightarrow>
            endpoint w = Some (internal_error, w2)) \<and>
         (10 \<le> current_sleep_time v k \<longrightarrow> endpoint v = Some (internal_error, v)) \<and>
         (match_short_url_path req \<noteq> [] \<and>
          find_long_url_by_short_url_path (match_short_url_path req) u = (Inl e', u1) \<longrightarrow>
            redirect_to_original_url a req u = (Inl e', u1)) \<and>
         (match_short_url_path req \<noteq> [] \<and>
          find_long_url_by_short_url_path (match_short_url_path req) u = (Inr (Some l), u2) \<and>
          truthy l \<and>
          increment_short_url_path_counter (match_short_url_path req) u2 = (Inl e'', u3) \<longrightarrow>
            redirect_to_original_url a req u = (Inl e'', u3))"
proof -
  have ep: "endpoint w' = reply (backoff k 2 10 func w')" for w'
    using assms
    by (auto simp: generate_short_url_def get_long_url_def get_short_url_visits_def)
  have 1: "endpoint w = endpoint (penalise k 2 e w1)"
    if "current_sleep_time w k < 10" "func w = Some (Inl e, w1)" "retried e"
    unfolding ep using backoff_retry [of w k 10 func e w1 2] that by simp
  have 2: "endpoint v = Some (internal_error, v)" if "10 \<le> current_sleep_time v k" for v
    unfolding ep using that by (simp add: backoff_exhausted reply_def)
  have 3: "endpoint w = Some (internal_error, w2)"
    if "failed_attempts k 2 10 func n w = Some w2" "10 \<le> current_sleep_time w2 k"
    using failed_attempts_backoff [OF that(1)] 2 [OF that(2)] by (simp add: ep)
  have 4: "redirect_to_original_url a req u = (Inl e', u1)"
    if "match_short_url_path req \<noteq> []"
      "find_long_url_by_short_url_path (match_short_url_path req) u = (Inl e', u1)"
    using that by (simp add: redirect_to_original_url_def)
  have 5: "redirect_to_original_url a req u = (Inl e'', u3)"
    if "match_short_url_path req \<noteq> []"
      "find_long_url_by_short_url_path (match_short_url_path req) u = (Inr (Some l), u2)"
      "truthy l"
      "increment_short_url_path_counter (match_short_url_path req) u2 = (Inl e'', u3)"
    using that by (simp add: redirect_to_original_url_def)
  from 1 2 3 4 5 show ?thesis by blast
qed

theorem decorator_governs_three_endpoints_witness:
  "get_long_url svc (get_req ''abc12'') (start_world [example_doc] [Fault ''down''] zeros) =
     get_long_url svc (get_req ''abc12'')
       (penalise GetLongUrl 2 (ConnectionFailure ''down'') (start_world [example_doc] [] zeros)) \<and>
   get_long_url svc (get_req ''abc12'') (start_world [example_doc] outage zeros) =
     Some (internal_error, after_outage) \<and>
   get_long_url svc (get_req ''abc12'') after_outage = Some (internal_error, after_outage) \<and>
   redirect_to_original_url svc (get_req ''abc12'') (start_world [example_doc] [Fault ''down''] zeros) =
     (Inl (ConnectionFailure ''down''), start_world [example_doc] [] zeros) \<and>
   redirect_to_original_url svc (get_req ''abc12'')
       (start_world [example_doc] [Proceed, Fault ''down''] zeros) =
     (Inl (ConnectionFailure ''down''), start_world [example_doc] [] zeros)"
proof -
  let ?f = "get_long_url_body svc (get_req ''abc12'')"
  let ?w = "start_world [example_doc] [Fault ''down''] zeros"
  let ?w1 = "start_world [example_doc] [] zeros"
  let ?o = "start_world [example_doc] outage zeros"
  let ?u = "start_world [example_doc] [Proceed, Fault ''down''] zeros"
  have f: "?f ?w = Some (Inl (ConnectionFailure ''down''), ?w1)"
    by (simp add: get_long_url_body_def eval_defs)
  have n: "failed_attempts GetLongUrl 2 10 ?f 7 ?o = Some after_outage"
    by (simp add: eval_nat_numeral get_long_url_body_def get_req_def start_world_def outage_def
        find_long_url_by_short_url_path_def find_one_by_key_value_def round_trip_def penalise_def
        after_outage_def retried_def)
  have l: "find_long_url_by_short_url_path (match_short_url_path (get_req ''abc12'')) ?w =
      (Inl (ConnectionFailure ''down''), ?w1)"
    by (simp add: eval_defs)
  have l': "find_long_url_by_short_url_path (match_short_url_path (get_req ''abc12'')) ?u =
      (Inr (Some (JStr ''https://example.com/a'')), ?w)"
    by (simp add: eval_defs)
  have i: "increment_short_url_path_counter (match_short_url_path (get_req ''abc12'')) ?w =
      (Inl (ConnectionFailure ''down''), ?w1)"
    by (simp add: eval_defs)
  have c: "current_sleep_time ?w GetLongUrl < 10" "10 \<le> current_sleep_time after_outage GetLongUrl"
    "retried (ConnectionFailure ''down'')" "match_short_url_path (get_req ''abc12'') \<noteq> []"
    "truthy (JStr ''https://example.com/a'')"
    by (simp_all add: start_world_def after_outage_def retried_def get_req_def)
  from decorator_governs_three_endpoints [where k = GetLongUrl and func = ?f
      and endpoint = "get_long_url svc (get_req ''abc12'')" and a = svc and req = "get_req ''abc12''"
      and w = ?w and e = "ConnectionFailure ''down''" and ?w1.0 = ?w1 and v = after_outage
      and u = ?w and e' = "ConnectionFailure ''down''" and ?u1.0 = ?w1]
    f l c
  have a: "get_long_url svc (get_req ''abc12'') ?w =
      get_long_url svc (get_req ''abc12'') (penalise GetLongUrl 2 (ConnectionFailure ''down'') ?w1)"
    "get_long_url svc (get_req ''abc12'') after_outage = Some (internal_error, after_outage)"
    "redirect_to_original_url svc (get_req ''abc12'') ?w = (Inl (ConnectionFailure ''down''), ?w1)"
    by simp_all
  from decorator_governs_three_endpoints [where k = GetLongUrl and func = ?f
      and endpoint = "get_long_url svc (get_req ''abc12'')" and a = svc and req = "get_req ''abc12''"
      and w = ?o and n = 7 and ?w2.0 = after_outage
      and u = ?u and l = "JStr ''https://example.com/a''" and ?u2.0 = ?w
      and e'' = "ConnectionFailure ''down''" and ?u3.0 = ?w1]
    n l' i c
  have b: "get_long_url svc (get_req ''abc12'') ?o = Some (internal_error, after_outage)"
    "redirect_to_original_url svc (get_req ''abc12'') ?u = (Inl (ConnectionFailure ''down''), ?w1)"
    by simp_all
  from a b show ?thesis by blast
qed

subsection \<open>C2: the increment and the redirect\<close>

text \<open>
  Claim C2 says that a failure of the increment does not block the redirect. In the
  code the increment is an ordinary call between the lookup and \<^verbatim>\<open>raise HTTPFound\<close>,
  with no \<^verbatim>\<open>try\<close> around it and no decorator on the handler: when the lookup goes
  through and the increment meets a connection failure, the caller gets that exception
  and no redirect.
\<close>

theorem failed_increment_blocks_redirect:
  "redirect_to_original_url svc (get_req ''abc12'')
     (start_world [example_doc] [Proceed, Fault ''down''] zeros) =
   (Inl (ConnectionFailure ''down''), start_world [example_doc] [] zeros)"
  by (simp add: redirect_to_original_url_def eval_defs)

text \<open>
  Claim C2, amended. In every world, whatever the database does: when the handler
  raises the redirect to \<open>v\<close>, the lookup of the path has returned \<open>v\<close> and the increment,
  called in the world the lookup left, has completed; the world the redirect leaves is
  the one the increment left, so the increment comes before the redirect. And when the
  lookup of a path returns a long URL that is not empty, the handler does what the
  increment does: if the increment raises, the handler raises the same exception, which
  is not a redirect, and leaves the world the failed increment left; if the increment
  completes, the handler raises the redirect to that long URL.
\<close>

theorem redirect_follows_the_increment:
  assumes "match_short_url_path req = p"
  shows "(redirect_to_original_url a req w = (Inl (HTTPFound v), w') \<longrightarrow>
            (\<exists>w1. find_long_url_by_short_url_path p w = (Inr (Some v), w1) \<and>
                  increment_short_url_path_counter p w1 = (Inr (), w'))) \<and>
         (p \<noteq> [] \<and> find_long_url_by_short_url_path p u = (Inr (Some l), u1) \<and> truthy l \<longrightarrow>
            (increment_short_url_path_counter p u1 = (Inl e, u2) \<longrightarrow>
               redirect_to_original_url a req u = (Inl e, u2) \<and> (\<forall>t. e \<noteq> HTTPFound t)) \<and>
            (increment_short_url_path_counter p u1 = (Inr (), u2) \<longrightarrow>
               redirect_to_original_url a req u = (Inl (HTTPFound l), u2)))"
proof -
  have lookup_plain: "find_long_url_by_short_url_path p w \<noteq> (Inl (HTTPFound v), w')"
    using round_trip_not_redirect
    by (auto simp: find_long_url_by_short_url_path_def find_one_by_key_value_def
        split: prod.splits sum.splits)
  have 1: "\<exists>w1. find_long_url_by_short_url_path p w = (Inr (Some v), w1) \<and>
                increment_short_url_path_counter p w1 = (Inr (), w')"
    if "redirect_to_original_url a req w = (Inl (HTTPFound v), w')"
    using that assms lookup_plain increment_not_redirect
    by (auto simp: redirect_to_original_url_def
        split: if_splits prod.splits sum.splits option.splits)
  have 2: "redirect_to_original_url a req u = (Inl e, u2) \<and> (\<forall>t. e \<noteq> HTTPFound t)"
    if "p \<noteq> []" "find_long_url_by_short_url_path p u = (Inr (Some l), u1)" "truthy l"
      "increment_short_url_path_counter p u1 = (Inl e, u2)"
    using that assms increment_not_redirect [of p u1 _ u2]
    by (auto simp: redirect_to_original_url_def)
  have 3: "redirect_to_original_url a req u = (Inl (HTTPFound l), u2)"
    if "p \<noteq> []" "find_long_url_by_short_url_path p u = (Inr (Some l), u1)" "truthy l"
      "increment_short_url_path_counter p u1 = (Inr (), u2)"
    using that assms by (simp add: redirect_to_original_url_def)
  from 1 2 3 show ?thesis by blast
qed

theorem redirect_follows_the_increment_witness:
  "redirect_to_original_url svc (get_req ''abc12'') (start_world [example_doc] [] zeros) =
     (Inl (HTTPFound (JStr ''https://example.com/a'')),
      start_world [example_doc\<lparr>visits := 1\<rparr>] [] zeros) \<and>
   (\<exists>w1. find_long_url_by_short_url_path ''abc12'' (start_world [example_doc] [] zeros) =
           (Inr (Some (JStr ''https://example.com/a'')), w1) \<and>
         increment_short_url_path_counter ''abc12'' w1 =
           (Inr (), start_world [example_doc\<lparr>visits := 1\<rparr>] [] zeros)) \<and>
   redirect_to_original_url svc (get_req ''abc12'')
       (start_world [example_doc] [Interleave other_doc, Fault ''down'', Fault ''again''] zeros) =
     (Inl (ConnectionFailure ''down''), start_world [example_doc, other_doc] [Fault ''again''] zeros)"
proof -
  let ?url = "JStr ''https://example.com/a''"
  let ?w = "start_world [example_doc] [] zeros"
  let ?w' = "start_world [example_doc\<lparr>visits := 1\<rparr>] [] zeros"
  let ?u = "start_world [example_doc] [Interleave other_doc, Fault ''down'', Fault ''again''] zeros"
  let ?u1 = "start_world [example_doc, other_doc] [Fault ''down'', Fault ''again''] zeros"
  let ?u2 = "start_world [example_doc, other_doc] [Fault ''again''] zeros"
  have p: "match_short_url_path (get_req ''abc12'') = ''abc12''"
    by (simp add: get_req_def)
  have lw: "find_long_url_by_short_url_path ''abc12'' ?w = (Inr (Some ?url), ?w)"
    by (simp add: eval_defs)
  have iw: "increment_short_url_path_counter ''abc12'' ?w = (Inr (), ?w')"
    by (simp add: eval_defs)
  have lu: "find_long_url_by_short_url_path ''abc12'' ?u = (Inr (Some ?url), ?u1)"
    by (simp add: eval_defs other_doc_def)
  have iu: "increment_short_url_path_counter ''abc12'' ?u1 = (Inl (ConnectionFailure ''down''), ?u2)"
    by (simp add: eval_defs other_doc_def)
  from redirect_follows_the_increment [OF p, where a = svc and u = ?w and ?u1.0 = ?w
      and l = ?url and ?u2.0 = ?w'] lw iw
  have redirected: "redirect_to_original_url svc (get_req ''abc12'') ?w = (Inl (HTTPFound ?url), ?w')"
    by simp
  with redirect_follows_the_increment [OF p, where a = svc and w = ?w and v = ?url and w' = ?w']
  have before: "\<exists>w1. find_long_url_by_short_url_path ''abc12'' ?w = (Inr (Some ?url), w1) \<and>
      increment_short_url_path_counter ''abc12'' w1 = (Inr (), ?w')"
    by blast
  from redirect_follows_the_increment [OF p, where a = svc and u = ?u and ?u1.0 = ?u1
      and l = ?url and ?u2.0 = ?u2 and e = "ConnectionFailure ''down''"] lu iu
  have blocked: "redirect_to_original_url svc (get_req ''abc12'') ?u =
      (Inl (ConnectionFailure ''down''), ?u2)"
    by simp
  from redirected before blocked show ?thesis by blast
qed

subsection \<open>C1: a duplicate key at the insert\<close>

lemma unique_loop_never_duplicate_key:
  assumes "unique_short_url_path_loop a w = Some (x, w')"
  shows "x \<noteq> Inl DuplicateKeyError"
proof -
  have "True \<and> (\<exists>v p v1. True \<and> generate_short_url_path a v = (p, v1) \<and>
            ((is_short_url_path_exist p v1 = (Inr False, w') \<and> x = Inr p) \<or>
             (\<exists>e. is_short_url_path_exist p v1 = (Inl e, w') \<and> x = Inl e)))"
    using assms by (rule unique_loop_last [where I = "\<lambda>_. True"]) simp_all
  then show ?thesis
    by (auto simp: is_short_url_path_exist_def find_one_by_key_value_def round_trip_def
        split: prod.splits sum.splits list.splits event.splits)
qed

text \<open>
  Claim C1 says that a duplicate key at the insert is recovered inside the unique-path
  generation and never reaches the caller as an error. The code has no handler for it.
  Here a POST to the freshly started service loses the race for its path seven times in
  a row: every \<open>DuplicateKeyError\<close> is taken by the decorator of \<open>generate_short_url\<close>
  as any other exception, and the caller gets the 500 response.
\<close>

theorem duplicate_key_surfaces_as_500:
  "map_option fst (generate_short_url svc example_post (start_world [] race counting)) =
     Some internal_error \<and>
   map_option (errlog \<circ> snd) (generate_short_url svc example_post (start_world [] race counting)) =
     Some [DuplicateKeyError, DuplicateKeyError, DuplicateKeyError, DuplicateKeyError,
           DuplicateKeyError, DuplicateKeyError, DuplicateKeyError]"
  by code_simp

text \<open>
  Claim C1, amended. The unique-path generation only reads the collection and never
  meets a \<open>DuplicateKeyError\<close>. When the insert of \<open>generate_short_url\<close> raises it,
  the decorator of \<open>generate_short_url\<close> logs it, sleeps, doubles its own cell and runs
  the whole handler again (the lookup by long URL, a new random path, the insert); the
  cell of the path generator is not involved. When the doubled cell is at the border,
  the caller gets the 500 response.
\<close>

theorem duplicate_key_is_retried_by_the_endpoint:
  assumes "current_sleep_time w GenerateShortUrl < 10"
    and "generate_short_url_body a req w = Some (Inl DuplicateKeyError, w1)"
  shows "generate_short_url a req w =
           generate_short_url a req (penalise GenerateShortUrl 2 DuplicateKeyError w1) \<and>
         current_sleep_time (penalise GenerateShortUrl 2 DuplicateKeyError w1) GenerateUniquePath =
           current_sleep_time w1 GenerateUniquePath \<and>
         (5 \<le> current_sleep_time w1 GenerateShortUrl \<longrightarrow>
            generate_short_url a req w =
              Some (internal_error, penalise GenerateShortUrl 2 DuplicateKeyError w1)) \<and>
         (\<forall>v x v'. unique_short_url_path_loop a v = Some (x, v') \<longrightarrow> x \<noteq> Inl DuplicateKeyError)"
proof -
  have r: "backoff GenerateShortUrl 2 10 (generate_short_url_body a req) w =
      backoff GenerateShortUrl 2 10 (generate_short_url_body a req)
        (penalise GenerateShortUrl 2 DuplicateKeyError w1)"
    using assms by (intro backoff_retry) (simp_all add: retried_def)
  then have 1: "generate_short_url a req w =
           generate_short_url a req (penalise GenerateShortUrl 2 DuplicateKeyError w1)"
    by (simp add: generate_short_url_def)
  have 2: "generate_short_url a req (penalise GenerateShortUrl 2 DuplicateKeyError w1) =
      Some (internal_error, penalise GenerateShortUrl 2 DuplicateKeyError w1)"
    if "5 \<le> current_sleep_time w1 GenerateShortUrl"
    using that by (simp add: generate_short_url_def reply_def backoff_exhausted penalise_simps)
  from 1 2 unique_loop_never_duplicate_key show ?thesis
    by (auto simp: penalise_simps)
qed

lemma lost_race_run:
  "generate_short_url_body svc example_post worn = Some (Inl DuplicateKeyError, lost_race)"
proof -
  let ?w1 = "worn\<lparr>script := tl (script worn)\<rparr>"
  let ?w2 = "worn\<lparr>script := tl (tl (script worn))\<rparr>"
  have g: "generate_short_url_path svc ?w1 = (''aaaaa'', ?w1)"
    by (simp add: generate_short_url_path_def random_chars_zeros worn_def)
      (simp add: svc_def eval_nat_numeral)
  have e: "is_short_url_path_exist ''aaaaa'' ?w1 = (Inr False, ?w2)"
    by (simp add: is_short_url_path_exist_def find_one_by_key_value_def round_trip_def
        worn_def rival_def)
  have u: "generate_unique_short_url_path svc ?w1 = Some (Inr ''aaaaa'', ?w2)"
    unfolding generate_unique_short_url_path_def
    using unique_loop_first_draw [OF g e]
    by (intro backoff_return) (simp_all add: worn_def)
  have f: "find_short_url_path_by_long_url (JStr ''https://example.com/a'') worn = (Inr None, ?w1)"
    by (simp add: find_short_url_path_by_long_url_def find_one_by_key_value_def round_trip_def
        worn_def rival_def)
  have i: "insert_url_mapping (Inr ''aaaaa'') (JStr ''https://example.com/a'') ?w2 =
      (Inl DuplicateKeyError, lost_race)"
    by (simp add: insert_url_mapping_def round_trip_def store_insert_def worn_def rival_def
        lost_race_def bson_path_def)
  have v: "GenerateShortURLInput svc [(''long_url'', JStr ''https://example.com/a'')] = []"
    by (simp add: GenerateShortURLInput_def svc_def example_validator_def has_scheme_def)
  show ?thesis
    by (simp add: generate_short_url_body_def example_post_def post_req_def v dict_get_def f u i)
qed

theorem duplicate_key_is_retried_by_the_endpoint_witness:
  "generate_short_url svc example_post worn =
     generate_short_url svc example_post (penalise GenerateShortUrl 2 DuplicateKeyError lost_race) \<and>
   generate_short_url svc example_post worn =
     Some (internal_error, penalise GenerateShortUrl 2 DuplicateKeyError lost_race)"
proof -
  have c: "current_sleep_time worn GenerateShortUrl < 10" by (simp add: worn_def)
  have d: "5 \<le> current_sleep_time lost_race GenerateShortUrl" by (simp add: lost_race_def)
  from duplicate_key_is_retried_by_the_endpoint [OF c lost_race_run] d
  show ?thesis by blast
qed

subsection \<open>C5: the visit count of an unknown path\<close>

text \<open>
  Claim C5 says that \<open>get_short_url_visits\<close> on a path that was never generated gives
  a not-found result, which in this service is a 400 response with a message, as
  \<open>get_long_url\<close> and \<open>redirect_to_original_url\<close> give. The code has no such test:
  \<open>find_short_url_path_visits\<close> returns \<^verbatim>\<open>None\<close> and the handler wraps it in a 200
  response, \<^verbatim>\<open>{"visits": null}\<close>. This is what the code does for every non-empty path
  without a record, when the database answers and the decorator still runs the handler.
\<close>

theorem visits_of_unknown_path_is_200_null:
  assumes "match_short_url_path req = p" and "p \<noteq> []"
    and "find (\<lambda>d. short_url_path d = Path p) (urls_col w) = None"
    and "script w = []"
    and "current_sleep_time w GetShortUrlVisits < 10"
  shows "get_short_url_visits a req w =
           Some (web_json_response (JDict [(''visits'', JNull)]) 200, w)"
proof -
  have "get_short_url_visits_body a req w =
      Some (Inr (web_json_response (JDict [(''visits'', JNull)]) 200), w)"
    using assms
    by (simp add: get_short_url_visits_body_def find_short_url_path_visits_def
        find_one_by_key_value_def quiet_round_trip)
  with assms(5) show ?thesis
    by (simp add: get_short_url_visits_def reply_def backoff_return)
qed

theorem visits_of_unknown_path_is_200_null_witness:
  "get_short_url_visits svc (get_req ''zzzzz'') (start_world [example_doc] [] zeros) =
     Some (web_json_response (JDict [(''visits'', JNull)]) 200, start_world [example_doc] [] zeros)"
  using visits_of_unknown_path_is_200_null [of "get_req ''zzzzz''" "''zzzzz''"
      "start_world [example_doc] [] zeros" svc]
  by (simp add: get_req_def start_world_def example_doc_def)

text \<open>The other half of C5 holds under the same conditions: for a path with a record
  the response carries the counter.\<close>

lemma visits_of_known_path:
  assumes "match_short_url_path req = p" and "p \<noteq> []"
    and "visits_of (Path p) (urls_col w) = Some n"
    and "script w = []"
    and "current_sleep_time w GetShortUrlVisits < 10"
  shows "get_short_url_visits a req w =
           Some (web_json_response (JDict [(''visits'', JInt n)]) 200, w)"
proof -
  have "get_short_url_visits_body a req w =
      Some (Inr (web_json_response (JDict [(''visits'', JInt n)]) 200), w)"
    using assms
    by (auto simp: get_short_url_visits_body_def find_short_url_path_visits_def
        find_one_by_key_value_def quiet_round_trip visits_of_def)
  with assms(5) show ?thesis
    by (simp add: get_short_url_visits_def reply_def backoff_return)
qed

subsection \<open>C8: the visit counter\<close>

lemma store_insert_visits:
  "store_insert d col = Some col' \<Longrightarrow> visits_of p col = Some n \<Longrightarrow> visits_of p col' = Some n"
  by (auto simp: store_insert_def visits_of_def find_snoc split: if_splits)

lemma round_trip_visits:
  "round_trip w = (x, w') \<Longrightarrow> visits_of p (urls_col w) = Some n \<Longrightarrow>
   visits_of p (urls_col w') = Some n"
  by (auto simp: round_trip_def split: list.splits event.splits option.splits
      dest: store_insert_visits)

lemma store_insert_new_visits:
  assumes "store_insert \<lparr>short_url_path = p, long_url = u, visits = 0\<rparr> col = Some col'"
  shows "visits_of p col' = Some 0"
proof -
  from assms have "col' = col @ [\<lparr>short_url_path = p, long_url = u, visits = 0\<rparr>]"
    and "\<forall>x\<in>set col. short_url_path x \<noteq> p"
    by (auto simp: store_insert_def list_ex_iff split: if_splits)
  then show ?thesis
    by (auto simp: visits_of_def find_snoc split: option.splits dest: find_SomeD)
qed

text \<open>
  Claim C8. The counter of a mapping is 0 right after \<open>insert_url_mapping\<close> has created
  it, whatever it was given as the path. A call of \<open>redirect_to_original_url\<close> that ends in the redirect (it raises
  \<open>HTTPFound\<close>) leaves the counter of its short path exactly one higher than it found
  it, also when other clients insert mappings meanwhile. Over any requests served by the
  application, with any failures and any inserts of other clients in between, a counter
  that is there stays there and does not go down.
\<close>

theorem visits_counter_monotone:
  "(insert_url_mapping x u w = (Inr (), w1) \<longrightarrow> visits_of (bson_path x) (urls_col w1) = Some 0) \<and>
   (visits_of (Path (match_short_url_path req)) (urls_col w) = Some n \<and>
    redirect_to_original_url a req w = (Inl (HTTPFound v), w2) \<longrightarrow>
      visits_of (Path (match_short_url_path req)) (urls_col w2) = Some (n + 1)) \<and>
   (visits_of q (urls_col w) = Some n \<and> serve_all a cs w = Some w3 \<longrightarrow>
      (\<exists>m. n \<le> m \<and> visits_of q (urls_col w3) = Some m))"
proof (intro conjI impI)
  assume ins: "insert_url_mapping x u w = (Inr (), w1)"
  obtain y w0 where rt: "round_trip w = (y, w0)" by (cases "round_trip w")
  with ins have "store_insert \<lparr>short_url_path = bson_path x, long_url = u, visits = 0\<rparr> (urls_col w0)
      = Some (urls_col w1)"
    by (auto simp: insert_url_mapping_def split: sum.splits option.splits)
  then show "visits_of (bson_path x) (urls_col w1) = Some 0" by (rule store_insert_new_visits)
next
  let ?p = "Path (match_short_url_path req)"
  assume a: "visits_of ?p (urls_col w) = Some n \<and>
    redirect_to_original_url a req w = (Inl (HTTPFound v), w2)"
  obtain y wa where rt1: "round_trip w = (y, wa)" by (cases "round_trip w")
  obtain z wb where rt2: "round_trip wa = (z, wb)" by (cases "round_trip wa")
  have va: "visits_of ?p (urls_col wa) = Some n" using rt1 a by (auto dest: round_trip_visits)
  have vb: "visits_of ?p (urls_col wb) = Some n" using rt2 va by (rule round_trip_visits)
  from a rt1 rt2 have "urls_col w2 = inc_first (\<lambda>d. short_url_path d = ?p) (urls_col wb)"
    by (auto simp: redirect_to_original_url_def Let_def find_long_url_by_short_url_path_def
        find_one_by_key_value_def increment_short_url_path_counter_def
        round_trip_not_redirect split: if_splits sum.splits option.splits)
  with vb show "visits_of ?p (urls_col w2) = Some (n + 1)"
    by (simp add: visits_of_inc_first)
next
  assume "visits_of q (urls_col w) = Some n \<and> serve_all a cs w = Some w3"
  then show "\<exists>m. n \<le> m \<and> visits_of q (urls_col w3) = Some m"
    using serve_all_evolves [of a cs w w3] by (auto simp: evolves_def store_grows_def)
qed

theorem visits_counter_monotone_witness:
  "visits_of (Path ''abc12'') (urls_col (snd (insert_url_mapping (Inr ''abc12'')
      (JStr ''https://example.com/a'') (start_world [] [] zeros)))) = Some 0 \<and>
   visits_of (Path ''abc12'') (urls_col (snd (redirect_to_original_url svc (get_req ''abc12'')
      (start_world [example_doc] [] zeros)))) = Some 1 \<and>
   (\<exists>m. 0 \<le> m \<and> visits_of (Path ''abc12'') (urls_col (the (serve_all svc
      [Redirect (get_req ''abc12''), Visits (get_req ''abc12'')]
      (start_world [example_doc] [] zeros)))) = Some m)"
proof -
  let ?w = "start_world [example_doc] [] zeros"
  let ?w2 = "?w\<lparr>urls_col := [example_doc\<lparr>visits := 1\<rparr>]\<rparr>"
  have ins: "insert_url_mapping (Inr ''abc12'') (JStr ''https://example.com/a'')
      (start_world [] [] zeros) = (Inr (), ?w)"
    by (simp add: eval_defs bson_path_def)
  have red: "redirect_to_original_url svc (get_req ''abc12'') ?w
      = (Inl (HTTPFound (JStr ''https://example.com/a'')), ?w2)"
    by (simp add: redirect_to_original_url_def eval_defs)
  have run: "serve_all svc [Redirect (get_req ''abc12''), Visits (get_req ''abc12'')] ?w = Some ?w2"
    by (simp add: red)
      (simp add: get_short_url_visits_def get_short_url_visits_body_def backoff.simps eval_defs)
  have v0: "visits_of (Path ''abc12'') (urls_col ?w) = Some 0"
    by (simp add: visits_of_def eval_defs)
  from visits_counter_monotone [where x = "Inr ''abc12''" and u = "JStr ''https://example.com/a''"
      and w = ?w and ?w1.0 = ?w and req = "get_req ''abc12''" and n = 0 and a = svc
      and v = "JStr ''https://example.com/a''" and ?w2.0 = ?w2 and q = "Path ''abc12''"
      and cs = "[Redirect (get_req ''abc12''), Visits (get_req ''abc12'')]" and ?w3.0 = ?w2]
    visits_counter_monotone [where x = "Inr ''abc12''" and u = "JStr ''https://example.com/a''"
      and w = "start_world [] [] zeros" and ?w1.0 = ?w]
    ins red run v0
  show ?thesis by (simp add: get_req_def bson_path_def)
qed

subsection \<open>C10: the check after validation\<close>

lemma validated_long_url:
  assumes "AnyUrl a [] \<noteq> None" and "GenerateShortURLInput a data = []"
  shows "\<exists>s. dict_get data ''long_url'' = JStr s \<and> s \<noteq> []"
  using assms
  by (auto simp: GenerateShortURLInput_def dict_get_def split: option.splits json.splits)

lemma body_not_not_specified:
  assumes "AnyUrl a [] \<noteq> None"
  shows "generate_short_url_body a req w \<noteq> Some (Inr not_specified, w')"
proof
  assume eq: "generate_short_url_body a req w = Some (Inr not_specified, w')"
  have ne: "web_json_response v 200 \<noteq> not_specified" for v
    by (simp add: web_json_response_def not_specified_def web_Response_def)
  from eq obtain data where d: "json_body req = Inr (JDict data)" "GenerateShortURLInput a data = []"
    by (auto simp: generate_short_url_body_def split: sum.splits json.splits list.splits)
  from validated_long_url [OF assms d(2)] have t: "truthy (dict_get data ''long_url'')" by auto
  from eq d t ne show False
    by (auto simp: generate_short_url_body_def Let_def
        split: prod.splits sum.splits option.splits if_splits stored_path.splits list.splits)
qed

text \<open>
  Claim C10 says that for every request body either pydantic's validation raises, which
  the decorator answers with 400, or \<^verbatim>\<open>data.get('long_url')\<close> is a non-empty string.
  A body that is JSON but no object is neither: for the JSON array \<^verbatim>\<open>[]\<close> the call
  \<^verbatim>\<open>GenerateShortURLInput(**data)\<close> raises a \<open>TypeError\<close> before pydantic is entered,
  \<^verbatim>\<open>data.get\<close> is never reached, and the decorator does not answer 400: it logs the
  error, sleeps and runs the handler again, seven times on the freshly started service,
  and the endpoint returns the 500 response.
\<close>

theorem array_body_is_retried_to_500:
  "json_body (post_req (JList [])) = Inr (JList []) \<and>
   generate_short_url_body svc (post_req (JList [])) (start_world [] [] zeros) =
     Some (Inl TypeError, start_world [] [] zeros) \<and>
   answer (Inl TypeError :: exn + response) = None \<and>
   generate_short_url svc (post_req (JList [])) (start_world [] [] zeros) =
     Some (internal_error, after_bad_body) \<and>
   status internal_error = 500"
  by (simp add: bad_body_run)
    (simp add: generate_short_url_body_def post_req_def answer_def internal_error_def
      web_Response_def)

text \<open>
  Claim C10, amended. pydantic's \<open>AnyUrl\<close> rejects the empty string; that is the
  hypothesis. For every request, either the handler raises before the test
  \<^verbatim>\<open>if not long_url\<close>, with the world untouched, or the body is an object with a
  non-empty string under \<open>long_url\<close>. What is raised is: whatever \<^verbatim>\<open>request.json()\<close>
  raises (a \<open>JSONDecodeError\<close> for a body that is not JSON, a \<open>UnicodeDecodeError\<close> for
  one that cannot be decoded); the \<open>TypeError\<close> of \<^verbatim>\<open>**data\<close> for a body that is
  JSON but no object; pydantic's \<open>ValidationError\<close>, with at least one error, otherwise.
  Of these the decorator answers \<open>JSONDecodeError\<close> and \<open>ValidationError\<close> with a 400
  response; \<open>TypeError\<close> and \<open>UnicodeDecodeError\<close> are logged and the handler is run
  again. A body for which \<^verbatim>\<open>GenerateShortURLInput(**data)\<close> does not raise is of
  the second kind, so the test is never true: neither the undecorated handler nor the
  decorated endpoint ever returns the response \<open>long_url parameter was not specified\<close>,
  for any request and any world.
\<close>

theorem not_specified_is_unreachable:
  assumes "AnyUrl a [] \<noteq> None"
  shows "((\<exists>e. generate_short_url_body a req w = Some (Inl e, w) \<and>
               (json_body req = Inl e \<or>
                e = TypeError \<and> (\<exists>v. json_body req = Inr v \<and> (\<forall>d. v \<noteq> JDict d)) \<or>
                (\<exists>d x xs. json_body req = Inr (JDict d) \<and> e = ValidationError (x # xs)))) \<or>
          (\<exists>data s. json_body req = Inr (JDict data) \<and>
               dict_get data ''long_url'' = JStr s \<and> s \<noteq> [])) \<and>
         (\<exists>r. answer (Inl JSONDecodeError :: exn + response) = Some (Inl r) \<and> status r = 400) \<and>
         (\<exists>r. answer (Inl (ValidationError es) :: exn + response) = Some (Inl r) \<and> status r = 400) \<and>
         answer (Inl TypeError :: exn + response) = None \<and>
         answer (Inl UnicodeDecodeError :: exn + response) = None \<and>
         (GenerateShortURLInput a data = [] \<longrightarrow>
            (\<exists>s. dict_get data ''long_url'' = JStr s \<and> s \<noteq> []) \<and>
            truthy (dict_get data ''long_url'')) \<and>
         generate_short_url_body a req w \<noteq> Some (Inr not_specified, w') \<and>
         generate_short_url a req w \<noteq> Some (not_specified, w')"
proof (intro conjI impI)
  show "(\<exists>e. generate_short_url_body a req w = Some (Inl e, w) \<and>
               (json_body req = Inl e \<or>
                e = TypeError \<and> (\<exists>v. json_body req = Inr v \<and> (\<forall>d. v \<noteq> JDict d)) \<or>
                (\<exists>d x xs. json_body req = Inr (JDict d) \<and> e = ValidationError (x # xs)))) \<or>
          (\<exists>data s. json_body req = Inr (JDict data) \<and>
               dict_get data ''long_url'' = JStr s \<and> s \<noteq> [])"
  proof (cases "json_body req")
    case (Inl e)
    then have "generate_short_url_body a req w = Some (Inl e, w)"
      by (simp add: generate_short_url_body_def)
    with Inl show ?thesis by blast
  next
    case (Inr v)
    show ?thesis
    proof (cases "\<exists>d. v = JDict d")
      case False
      with Inr have "generate_short_url_body a req w = Some (Inl TypeError, w)"
        by (cases v) (simp_all add: generate_short_url_body_def)
      with Inr False show ?thesis by blast
    next
      case True
      then obtain d where d: "v = JDict d" by blast
      show ?thesis
      proof (cases "GenerateShortURLInput a d")
        case Nil
        from validated_long_url [OF assms Nil] Inr d show ?thesis by blast
      next
        case (Cons x xs)
        with Inr d have "generate_short_url_body a req w = Some (Inl (ValidationError (x # xs)), w)"
          by (simp add: generate_short_url_body_def)
        with Inr d show ?thesis by blast
      qed
    qed
  qed
next
  show "\<exists>r. answer (Inl JSONDecodeError :: exn + response) = Some (Inl r) \<and> status r = 400"
    by (simp add: answer_def web_Response_def)
next
  show "\<exists>r. answer (Inl (ValidationError es) :: exn + response) = Some (Inl r) \<and> status r = 400"
    by (simp add: answer_def web_json_response_def)
next
  show "answer (Inl TypeError :: exn + response) = None"
    by (simp add: answer_def)
next
  show "answer (Inl UnicodeDecodeError :: exn + response) = None"
    by (simp add: answer_def)
next
  assume v: "GenerateShortURLInput a data = []"
  from validated_long_url [OF assms v]
  show "\<exists>s. dict_get data ''long_url'' = JStr s \<and> s \<noteq> []" .
  then show "truthy (dict_get data ''long_url'')" by auto
next
  show "generate_short_url_body a req w \<noteq> Some (Inr not_specified, w')"
    using assms by (rule body_not_not_specified)
next
  show "generate_short_url a req w \<noteq> Some (not_specified, w')"
  proof
    assume "generate_short_url a req w = Some (not_specified, w')"
    then obtain y where run: "backoff GenerateShortUrl 2 10 (generate_short_url_body a req) w = Some (y, w')"
      and y: "not_specified = (case y of Inl a \<Rightarrow> a | Inr b \<Rightarrow> b)"
      unfolding generate_short_url_def by (auto dest!: reply_Some)
    have "\<exists>v. True \<and> True \<and>
           (if current_sleep_time v GenerateShortUrl < 10
            then \<exists>x. generate_short_url_body a req v = Some (x, w') \<and> answer x = Some y
            else w' = v \<and> y = Inl internal_error)"
      using run by (rule backoff_last_attempt [where I = "\<lambda>_. True"]) simp_all
    then consider (gave_up) "y = Inl internal_error"
      | (attempt) v x where "generate_short_url_body a req v = Some (x, w')" "answer x = Some y"
      by (auto split: if_splits)
    then show False
    proof cases
      case gave_up
      with y show False
        by (simp add: not_specified_def internal_error_def web_Response_def)
    next
      case attempt
      with y body_not_not_specified [OF assms, of req v w'] show False
        by (auto simp: answer_def not_specified_def web_Response_def web_json_response_def
            split: sum.splits exn.splits)
    qed
  qed
qed

theorem not_specified_is_unreachable_witness:
  "((\<exists>e. generate_short_url_body svc (post_req (JDict [])) (start_world [] [] zeros) =
            Some (Inl e, start_world [] [] zeros) \<and>
          (json_body (post_req (JDict [])) = Inl e \<or>
           e = TypeError \<and> (\<exists>v. json_body (post_req (JDict [])) = Inr v \<and> (\<forall>d. v \<noteq> JDict d)) \<or>
           (\<exists>d x xs. json_body (post_req (JDict [])) = Inr (JDict d) \<and> e = ValidationError (x # xs)))) \<or>
    (\<exists>data s. json_body (post_req (JDict [])) = Inr (JDict data) \<and>
         dict_get data ''long_url'' = JStr s \<and> s \<noteq> [])) \<and>
   (\<exists>s. dict_get [(''long_url'', JStr ''https://example.com/a'')] ''long_url'' = JStr s \<and> s \<noteq> []) \<and>
   truthy (dict_get [(''long_url'', JStr ''https://example.com/a'')] ''long_url'') \<and>
   generate_short_url_body svc (post_req (JDict [])) (start_world [] [] zeros)
     \<noteq> Some (Inr not_specified, start_world [] [] zeros) \<and>
   generate_short_url svc (post_req (JDict [])) (start_world [] [] zeros)
     \<noteq> Some (not_specified, start_world [] [] zeros)"
  using not_specified_is_unreachable [where a = svc
      and data = "[(''long_url'', JStr ''https://example.com/a'')]"
      and req = "post_req (JDict [])" and w = "start_world [] [] zeros"
      and w' = "start_world [] [] zeros"]
  by (simp add: svc_def example_validator_def has_scheme_def GenerateShortURLInput_def)

subsection \<open>C9: a long URL that fails validation\<close>

text \<open>
  Claim C9 says that an empty or malformed \<open>long_url\<close> is answered with the 400
  response that lists the validation errors, and that no record is made. The second half
  holds. The first holds only while the cell of the decorator of \<open>generate_short_url\<close>
  is below the border; once it is there (a POST of the JSON array \<^verbatim>\<open>[]\<close> to the
  freshly started service takes it there), the answer is the 500 response, and the
  handler and pydantic are not run at all. The cell is never put back, although the
  comment on the return of the 500 response speaks of a function still failing after the
  maximum retries. Here \<open>msg\<close> is the message with which \<open>AnyUrl\<close> rejects the string \<open>s\<close>
  (the empty string is rejected, by pydantic's validator). In both cases the endpoint
  returns at once and leaves the world as it is: no round trip to the collection, no
  record.
\<close>

theorem invalid_long_url_never_stored:
  assumes "json_body req = Inr (JDict data)"
    and "map_of data ''long_url'' = Some (JStr s)"
    and "AnyUrl a s = Some msg"
  shows "generate_short_url a req w =
           Some (if current_sleep_time w GenerateShortUrl < 10
                 then web_json_response
                        (JDict [(''errors'',
                           JList [JDict [(''field'', JStr ''long_url''), (''message'', JStr msg)]])])
                        400
                 else internal_error, w)"
proof (cases "current_sleep_time w GenerateShortUrl < 10")
  case True
  have "generate_short_url_body a req w = Some (Inl (ValidationError [([''long_url''], msg)]), w)"
    using assms by (simp add: generate_short_url_body_def GenerateShortURLInput_def)
  with True show ?thesis
    by (subst generate_short_url_def, subst backoff.simps)
      (simp add: reply_def field_errors_def)
next
  case False
  then show ?thesis
    by (simp add: generate_short_url_def reply_def backoff_exhausted)
qed

theorem invalid_long_url_never_stored_witness:
  "generate_short_url svc (post_req (JList [])) (start_world [] [] zeros) =
     Some (internal_error, after_bad_body) \<and>
   generate_short_url svc (post_req (JDict [(''long_url'', JStr [])])) after_bad_body =
     Some (internal_error, after_bad_body) \<and>
   status internal_error = 500 \<and>
   generate_short_url svc (post_req (JDict [(''long_url'', JStr [])])) (start_world [] [] zeros) =
     Some (web_json_response
             (JDict [(''errors'',
                JList [JDict [(''field'', JStr ''long_url''),
                              (''message'', JStr ''Input should be a valid URL, input is empty'')]])])
             400,
           start_world [] [] zeros)"
  using invalid_long_url_never_stored [of "post_req (JDict [(''long_url'', JStr [])])"
      "[(''long_url'', JStr [])]" "[]" svc "''Input should be a valid URL, input is empty''" after_bad_body]
    invalid_long_url_never_stored [of "post_req (JDict [(''long_url'', JStr [])])"
      "[(''long_url'', JStr [])]" "[]" svc "''Input should be a valid URL, input is empty''" "start_world [] [] zeros"]
    bad_body_run
  by (simp add: post_req_def svc_def example_validator_def has_scheme_def start_world_def
      after_bad_body_def internal_error_def web_Response_def)

subsection \<open>C7: shortening the same long URL twice\<close>

text \<open>What holds: when the long URL has a record with a non-empty short path, the
  database answers and the cell of the decorator is below the border, the endpoint
  returns the stored path and changes nothing; so does the second of two POSTs to the
  fresh, undisturbed service.\<close>

lemma lookup_returns_short_url:
  assumes req: "json_body req = Inr (JDict data)"
    and valid: "GenerateShortURLInput a data = []" "truthy (dict_get data ''long_url'')"
    and stored: "path_of_url (dict_get data ''long_url'') (urls_col w) = Some (Path p)" "p \<noteq> []"
    and quiet: "script w = []"
    and cell: "current_sleep_time w GenerateShortUrl < 10"
  shows "generate_short_url a req w = Some (short_url_response a p, w)"
proof -
  from stored obtain d where d: "find (\<lambda>d. long_url d = dict_get data ''long_url'') (urls_col w) = Some d"
    "short_url_path d = Path p"
    by (auto simp: path_of_url_def)
  from stored(2) obtain c cs where p: "p = c # cs" by (cases p) auto
  have "generate_short_url_body a req w = Some (Inr (short_url_response a p), w)"
    using req valid quiet d p
    by (simp add: generate_short_url_body_def find_short_url_path_by_long_url_def
        find_one_by_key_value_def round_trip_def short_url_response_def)
  with cell show ?thesis
    by (simp add: generate_short_url_def reply_def backoff_return)
qed

lemma example_post_valid:
  "GenerateShortURLInput svc [(''long_url'', JStr ''https://example.com/a'')] = []"
  by (simp add: GenerateShortURLInput_def svc_def example_validator_def has_scheme_def)

lemma first_post_run:
  "generate_short_url svc example_post (start_world [] [] zeros) =
     Some (short_url_response svc ''aaaaa'', after_first_post)"
proof -
  let ?w = "start_world [] [] zeros"
  have g: "generate_short_url_path svc ?w = (''aaaaa'', ?w)"
    by (simp add: generate_short_url_path_def random_chars_zeros start_world_def)
      (simp add: svc_def eval_nat_numeral)
  have e: "is_short_url_path_exist ''aaaaa'' ?w = (Inr False, ?w)"
    by (simp add: eval_defs)
  have u: "generate_unique_short_url_path svc ?w = Some (Inr ''aaaaa'', ?w)"
    unfolding generate_unique_short_url_path_def
    using unique_loop_first_draw [OF g e]
    by (intro backoff_return) (simp_all add: start_world_def)
  have f: "find_short_url_path_by_long_url (JStr ''https://example.com/a'') ?w = (Inr None, ?w)"
    by (simp add: eval_defs)
  have i: "insert_url_mapping (Inr ''aaaaa'') (JStr ''https://example.com/a'') ?w =
      (Inr (), after_first_post)"
    by (simp add: insert_url_mapping_def round_trip_def store_insert_def start_world_def
        after_first_post_def bson_path_def)
  have "generate_short_url_body svc example_post ?w =
      Some (Inr (short_url_response svc ''aaaaa''), after_first_post)"
    by (simp add: generate_short_url_body_def example_post_def post_req_def example_post_valid
        dict_get_def f u i short_url_response_def path_text_def)
  then show ?thesis
    unfolding generate_short_url_def
    by (subst backoff_return [where v = "short_url_response svc ''aaaaa''" and ?w1.0 = after_first_post])
      (simp_all add: start_world_def reply_def)
qed

lemma second_post_run:
  "generate_short_url svc example_post after_first_post =
     Some (short_url_response svc ''aaaaa'', after_first_post)"
  by (rule lookup_returns_short_url [where data = "[(''long_url'', JStr ''https://example.com/a'')]"])
    (simp_all add: example_post_def post_req_def example_post_valid dict_get_def path_of_url_def
      after_first_post_def start_world_def)

text \<open>With the cell of its decorator at the border, the endpoint answers every request
  with the 500 response and does nothing.\<close>

lemma generate_short_url_at_border:
  "10 \<le> current_sleep_time w GenerateShortUrl \<Longrightarrow>
   generate_short_url a req w = Some (internal_error, w)"
  by (simp add: generate_short_url_def backoff_exhausted reply_def)

text \<open>The first POST when the existence check fails at every attempt of the path
  generator.\<close>

lemma unique_loop_fault:
  assumes "rng w = zeros" and "script w = Fault m # es"
  shows "unique_short_url_path_loop a w = Some (Inl (ConnectionFailure m), w\<lparr>script := es\<rparr>)"
  by (subst unique_short_url_path_loop.simps)
    (simp add: generate_short_url_path_def random_chars_zeros is_short_url_path_exist_def
      find_one_by_key_value_def round_trip_def assms)

lemma flaky_path_generator:
  "generate_unique_short_url_path svc (start_world [] outage zeros) =
     Some (Inl internal_error, after_flaky_check\<lparr>urls_col := []\<rparr>)"
proof -
  have "failed_attempts GenerateUniquePath 2 10 (unique_short_url_path_loop svc) 7
      (start_world [] outage zeros) = Some (after_flaky_check\<lparr>urls_col := []\<rparr>)"
    by (simp add: eval_nat_numeral unique_loop_fault penalise_def start_world_def outage_def
        retried_def after_flaky_check_def)
  from failed_attempts_backoff [OF this] show ?thesis
    by (simp add: generate_unique_short_url_path_def backoff_exhausted after_flaky_check_def)
qed

lemma flaky_check_run:
  "generate_short_url svc example_post (start_world [] flaky_check zeros) =
     Some (short_url_response svc (Response_repr svc internal_error), after_flaky_check)"
proof -
  let ?w = "start_world [] flaky_check zeros"
  let ?w1 = "start_world [] outage zeros"
  let ?w2 = "after_flaky_check\<lparr>urls_col := []\<rparr>"
  have f: "find_short_url_path_by_long_url (JStr ''https://example.com/a'') ?w = (Inr None, ?w1)"
    by (simp add: find_short_url_path_by_long_url_def find_one_by_key_value_def round_trip_def
        start_world_def flaky_check_def)
  have i: "insert_url_mapping (Inl internal_error) (JStr ''https://example.com/a'') ?w2 =
      (Inr (), after_flaky_check)"
    by (simp add: insert_url_mapping_def round_trip_def store_insert_def bson_path_def
        after_flaky_check_def)
  have "generate_short_url_body svc example_post ?w =
      Some (Inr (short_url_response svc (Response_repr svc internal_error)), after_flaky_check)"
    by (simp add: generate_short_url_body_def example_post_def post_req_def example_post_valid
        dict_get_def f flaky_path_generator i short_url_response_def path_text_def)
  then show ?thesis
    unfolding generate_short_url_def
    by (subst backoff_return [where v = "short_url_response svc (Response_repr svc internal_error)"
          and ?w1.0 = after_flaky_check])
      (simp_all add: start_world_def reply_def)
qed

text \<open>The second POST: the lookup finds the record, its path is the empty document, the
  path generator gives up at once and the insert is refused, at every attempt.\<close>

lemma stuck_attempt:
  assumes "script v = []"
    and "urls_col v = urls_col after_flaky_check"
    and "10 \<le> current_sleep_time v GenerateUniquePath"
  shows "generate_short_url_body svc example_post v = Some (Inl DuplicateKeyError, v)"
  using assms
  by (simp add: generate_short_url_body_def example_post_def post_req_def example_post_valid
      dict_get_def find_short_url_path_by_long_url_def find_one_by_key_value_def round_trip_def
      generate_unique_short_url_path_def backoff_exhausted insert_url_mapping_def
      store_insert_def bson_path_def after_flaky_check_def)

lemma stuck_run:
  "generate_short_url svc example_post after_flaky_check = Some (internal_error, after_second_post)"
proof -
  have s: "script after_flaky_check = []"
    "10 \<le> current_sleep_time after_flaky_check GenerateUniquePath"
    "current_sleep_time after_flaky_check GenerateShortUrl = 1 / 10"
    by (simp_all add: after_flaky_check_def)
  have "failed_attempts GenerateShortUrl 2 10 (generate_short_url_body svc example_post) 7
      after_flaky_check = Some after_second_post"
    by (simp add: eval_nat_numeral stuck_attempt penalise_simps retried_def s)
      (simp add: penalise_def after_second_post_def after_flaky_check_def fun_upd_twist)
  from failed_attempts_backoff [OF this] show ?thesis
    by (simp add: generate_short_url_def backoff_exhausted reply_def after_second_post_def)
qed

lemma dead_after_bad_body:
  "generate_short_url svc example_post after_bad_body = Some (internal_error, after_bad_body)"
  by (rule generate_short_url_at_border) (simp add: after_bad_body_def)

text \<open>
  Claim C7 says that two calls of GenerateShortURL with the same valid long URL return
  the same short path, and that one record exists for the long URL afterwards. Two
  defects of the code stand against it. (1) The path generator is decorated itself: when
  the existence check fails at each of its attempts, its decorator returns the 500
  response in place of a path, and the handler takes that for the path. On the fresh
  service whose database answers the lookup and then fails seven times, the first POST
  of the example URL is answered 200 with a short URL made of the text of that response,
  and the record it stores has the empty document for its path; the second POST, with
  the database back, finds that record, cannot use its path, is refused the insert seven
  times and is answered 500. (2) The cell of the decorator is never put back: after a
  POST of the JSON array \<^verbatim>\<open>[]\<close> to the fresh service it is at 12.8, and both POSTs of
  the example URL are answered 500 with no record made.
\<close>

theorem generate_short_url_not_idempotent:
  "generate_short_url svc example_post (start_world [] flaky_check zeros) =
     Some (short_url_response svc (Response_repr svc internal_error), after_flaky_check) \<and>
   status (short_url_response svc (Response_repr svc internal_error)) = 200 \<and>
   urls_col after_flaky_check =
     [\<lparr>short_url_path = Embedded, long_url = JStr ''https://example.com/a'', visits = 0\<rparr>] \<and>
   script after_flaky_check = [] \<and>
   generate_short_url svc example_post after_flaky_check = Some (internal_error, after_second_post) \<and>
   urls_col after_second_post = urls_col after_flaky_check \<and>
   generate_short_url svc (post_req (JList [])) (start_world [] [] zeros) =
     Some (internal_error, after_bad_body) \<and>
   generate_short_url svc example_post after_bad_body = Some (internal_error, after_bad_body) \<and>
   urls_col after_bad_body = [] \<and>
   script after_bad_body = [] \<and>
   status internal_error = 500"
  by (simp add: flaky_check_run stuck_run bad_body_run dead_after_bad_body)
    (simp add: after_flaky_check_def after_second_post_def after_bad_body_def
      short_url_response_def web_json_response_def internal_error_def web_Response_def)


end
